theory Spec2Isabelle
  imports Main "HOL-Library.Sublist"
begin

section \<open>Byte strings\<close>

text \<open>
  A Go \<open>[]byte\<close> is a list of 8-bit characters; a nil slice and an empty slice are
  both the empty list (the code only ever takes their length or compares them).
  \<open>bytes.Compare\<close> is the unsigned byte-wise lexicographic comparison of the Go
  standard library, with results -1, 0 and 1.
\<close>

type_synonym bytes = "char list"

fun bytes_Compare :: "bytes \<Rightarrow> bytes \<Rightarrow> int" where
  "bytes_Compare [] [] = 0"
| "bytes_Compare [] (y # ys) = - 1"
| "bytes_Compare (x # xs) [] = 1"
| "bytes_Compare (x # xs) (y # ys) =
     (if (of_char x :: nat) < of_char y then - 1
      else if (of_char y :: nat) < of_char x then 1
      else bytes_Compare xs ys)"

text \<open>
  The order that \<open>bytes.Compare\<close> decides, stated independently: the lexicographic
  order of lists over the unsigned order of bytes.
\<close>

definition byte_less :: "(char \<times> char) set" where
  "byte_less = {(x, y). (of_char x :: nat) < of_char y}"

text \<open>Run-time panics of the Go code are values of the model.\<close>

datatype panic = IndexOutOfRange nat nat | NilDereference | TypeAssertion

text \<open>\<open>s[i]\<close> on a slice: a run-time panic when \<open>i\<close> is not below \<open>len(s)\<close>.\<close>

definition index :: "bytes \<Rightarrow> nat \<Rightarrow> panic + char" where
  "index s i = (if i < length s then Inr (s ! i) else Inl (IndexOutOfRange i (length s)))"

section \<open>region.Info and pointers to it\<close>

record Info =
  Table :: bytes
  RegionName :: bytes
  StopKey :: bytes

text \<open>
  A \<open>*region.Info\<close> is nil or the address of an Info that is never mutated after its
  construction, so a non-nil pointer is modelled as the address together with the
  Info stored there. Pointer comparison and the keys of the region-to-client map
  see the address.
\<close>

datatype 'a ptr = Null | Ref nat 'a

definition metaTableName :: bytes where
  "metaTableName = ''hbase:meta''"

text \<open>
  \<open>metaRegionInfo\<close> points to the one Info of the meta region, allocated once; it is
  given the address 0.
\<close>

definition metaInfo :: Info where
  "metaInfo = \<lparr>Table = ''hbase:meta'', RegionName = ''hbase:meta,,1'', StopKey = []\<rparr>"

definition metaRegionInfo :: "Info ptr" where
  "metaRegionInfo = Ref 0 metaInfo"

section \<open>The ordered tree of the key-to-region cache\<close>

text \<open>
  The tree is the B+tree of the imported package \<open>github.com/cznic/b\<close>, created by
  \<open>b.TreeNew(region.CompareGeneric)\<close>. Neither the package nor the comparator is
  part of the source file. The comparator \<open>cmp\<close> is a parameter. The tree is modelled
  by how the package behaves: its items in the collation order of the comparator, and
  an enumerator that is a position in that sequence, the flag \<open>hit\<close> and a sticky
  end-of-file error. \<open>Seek\<close> positions the enumerator on the first item whose key is
  not below the sought key (possibly after the last item) and reports an exact hit.
  \<open>Prev\<close> returns the item at the position and moves one item back; but when the
  enumerator comes from a \<open>Seek\<close> that did not hit, \<open>Prev\<close> first moves one item back
  (a Seek that misses stops after the place of the key). It returns \<open>io.EOF\<close>
  (here \<open>None\<close>) once a move back finds no item.
\<close>

type_synonym ('k, 'v) Tree = "('k \<times> 'v) list"

definition TreeNew :: "('k, 'v) Tree" where
  "TreeNew = []"

definition Len :: "('k, 'v) Tree \<Rightarrow> nat" where
  "Len t = length t"

definition Last :: "('k, 'v) Tree \<Rightarrow> ('k \<times> 'v) option" where
  "Last t = (if t = [] then None else Some (last t))"

record ('k, 'v) Enumerator =
  e_items :: "('k \<times> 'v) list"
  e_pos :: nat
  e_hit :: bool
  e_err :: bool

fun seek_index :: "('k \<Rightarrow> 'k \<Rightarrow> int) \<Rightarrow> ('k \<times> 'v) list \<Rightarrow> 'k \<Rightarrow> nat" where
  "seek_index cmp [] k = 0"
| "seek_index cmp (item # items) k =
     (if 0 < cmp k (fst item) then Suc (seek_index cmp items k) else 0)"

definition Seek ::
  "('k \<Rightarrow> 'k \<Rightarrow> int) \<Rightarrow> ('k, 'v) Tree \<Rightarrow> 'k \<Rightarrow> ('k, 'v) Enumerator \<times> bool" where
  "Seek cmp t k =
     (let i = seek_index cmp t k;
          ok = (i < length t \<and> cmp k (fst (t ! i)) = 0)
      in (\<lparr>e_items = t, e_pos = i, e_hit = ok, e_err = False\<rparr>, ok))"

text \<open>
  The move to the previous item (the unexported \<open>prev\<close> of the enumerator): with no
  previous item the enumerator gets its sticky error.
\<close>

definition step_back :: "('k, 'v) Enumerator \<Rightarrow> ('k, 'v) Enumerator" where
  "step_back e =
     (if e_items e = [] then e\<lparr>e_err := True\<rparr>
      else if 0 < e_pos e then e\<lparr>e_pos := e_pos e - 1\<rparr>
      else e\<lparr>e_err := True\<rparr>)"

text \<open>
  \<open>Prev\<close>. A position comes from \<open>Seek\<close> and only moves back, so it is never above the
  number of items, and after the moves below it is the index of an item.
\<close>

definition Prev :: "('k, 'v) Enumerator \<Rightarrow> ('k \<times> 'v) option \<times> ('k, 'v) Enumerator" where
  "Prev e =
     (if e_err e then (None, e)
      else if e_items e = [] then (None, e\<lparr>e_err := True\<rparr>)
      else
        (let e1 = (if \<not> e_hit e then step_back e else e)
         in if e_err e1 then (None, e1)
            else
              (let e2 = (if length (e_items e1) \<le> e_pos e1 then step_back e1 else e1)
               in if e_err e2 then (None, e2)
                  else (Some (e_items e2 ! e_pos e2), step_back (e2\<lparr>e_hit := True\<rparr>)))))"

text \<open>
  \<open>Put(k, upd)\<close> with the updater of \<open>keyRegionCache.put\<close>, which always writes the
  new value: the item is overwritten when the key is present and inserted at its
  place in the order otherwise. The old value is returned, if any.
\<close>

fun Put ::
  "('k \<Rightarrow> 'k \<Rightarrow> int) \<Rightarrow> ('k, 'v) Tree \<Rightarrow> 'k \<Rightarrow> 'v \<Rightarrow> 'v option \<times> ('k, 'v) Tree" where
  "Put cmp [] k v = (None, [(k, v)])"
| "Put cmp (item # items) k v =
     (if 0 < cmp k (fst item) then
        (case Put cmp items k v of (old, items') \<Rightarrow> (old, item # items'))
      else if cmp k (fst item) = 0 then (Some (snd item), (k, v) # items)
      else (None, (k, v) # item # items))"

text \<open>
  What the tree package requires of its comparator (a total order, with 0 for equal
  keys only) and the invariant of the tree: its items are strictly ascending.
\<close>

definition comparator_ok :: "('k \<Rightarrow> 'k \<Rightarrow> int) \<Rightarrow> bool" where
  "comparator_ok cmp \<longleftrightarrow>
     (\<forall>a b. cmp a b = 0 \<longleftrightarrow> a = b) \<and>
     (\<forall>a b. cmp a b < 0 \<longleftrightarrow> 0 < cmp b a) \<and>
     (\<forall>a b c. cmp a b < 0 \<and> cmp b c < 0 \<longrightarrow> cmp a c < 0)"

definition tree_sorted :: "('k \<Rightarrow> 'k \<Rightarrow> int) \<Rightarrow> ('k, 'v) Tree \<Rightarrow> bool" where
  "tree_sorted cmp t \<longleftrightarrow> sorted_wrt (\<lambda>x y. cmp (fst x) (fst y) < 0) t"

section \<open>keyRegionCache\<close>

text \<open>
  \<open>keyRegionCache.get\<close>. The mutex is held for the whole body, which is therefore one
  atomic step. The result \<open>None\<close> is the pair \<open>(nil, nil)\<close> of the source.
\<close>

definition get ::
  "('k \<Rightarrow> 'k \<Rightarrow> int) \<Rightarrow> ('k, 'v) Tree \<Rightarrow> 'k \<Rightarrow> ('k \<times> 'v) option" where
  "get cmp regions key =
     (case Seek cmp regions key of (enum, ok) \<Rightarrow>
        (case Prev enum of (kv, enum1) \<Rightarrow>
           if kv = None \<and> 0 < Len regions then Last regions
           else if \<not> ok then fst (Prev enum1)
           else kv))"

definition put ::
  "('k \<Rightarrow> 'k \<Rightarrow> int) \<Rightarrow> ('k, 'v) Tree \<Rightarrow> 'k \<Rightarrow> 'v \<Rightarrow> 'v option \<times> ('k, 'v) Tree" where
  "put cmp regions key reg = Put cmp regions key reg"

section \<open>Search keys and validation of a cache hit\<close>

definition createRegionSearchKey :: "bytes \<Rightarrow> bytes \<Rightarrow> bytes" where
  "createRegionSearchKey table key = table @ '','' @ key @ '','' @ '':''"

text \<open>
  \<open>isCacheKeyForTable\<close>: the loop over \<open>i\<close>, then the read of \<open>cacheKey[len(table)]\<close>.
  \<open>table[i]\<close> is in range by the loop condition; \<open>cacheKey[i]\<close> need not be.
\<close>

function isCacheKeyForTable_loop :: "bytes \<Rightarrow> bytes \<Rightarrow> nat \<Rightarrow> panic + bool" where
  "isCacheKeyForTable_loop table cacheKey i =
     (if i < length table then
        (case index cacheKey i of
           Inl p \<Rightarrow> Inl p
         | Inr c \<Rightarrow>
             if table ! i \<noteq> c then Inr False
             else isCacheKeyForTable_loop table cacheKey (i + 1))
      else
        (case index cacheKey (length table) of
           Inl p \<Rightarrow> Inl p
         | Inr c \<Rightarrow> Inr (c = CHR '','')))"
  by pat_completeness auto
termination
  by (relation "measure (\<lambda>(table, cacheKey, i). length table - i)") auto

definition isCacheKeyForTable :: "bytes \<Rightarrow> bytes \<Rightarrow> panic + bool" where
  "isCacheKeyForTable table cacheKey = isCacheKeyForTable_loop table cacheKey 0"

text \<open>
  \<open>Client.getRegion\<close>, on the key-to-region tree of the client. \<open>Inr Null\<close> is the nil
  result (a cache miss).
\<close>

definition getRegion ::
  "(bytes \<Rightarrow> bytes \<Rightarrow> int) \<Rightarrow> (bytes, Info ptr) Tree \<Rightarrow> bytes \<Rightarrow> bytes \<Rightarrow> panic + Info ptr" where
  "getRegion cmp regions table key =
     (if table = metaTableName then Inr metaRegionInfo
      else
        (case get cmp regions (createRegionSearchKey table key) of
           None \<Rightarrow> Inr Null
         | Some (region_key, Null) \<Rightarrow> Inr Null
         | Some (region_key, Ref a region) \<Rightarrow>
             (case isCacheKeyForTable table region_key of
                Inl p \<Rightarrow> Inl p
              | Inr False \<Rightarrow> Inr Null
              | Inr True \<Rightarrow>
                  if length (StopKey region) \<noteq> 0 \<and> 0 \<le> bytes_Compare key (StopKey region)
                  then Inr Null
                  else Inr (Ref a region))))"

section \<open>Errors and the rows of the meta table\<close>

text \<open>
  Go errors are values. The ones this file creates have constructors of their own;
  \<open>NumError\<close> is the error of \<open>strconv.ParseUint\<close>, and \<open>Foreign\<close> stands for any error
  value handed back by a collaborator (the decoder of region infos, the connection
  constructor, the coordination service, a region server).
\<close>

datatype num_error = ErrSyntax | ErrRange

record Cell =
  Qualifier :: bytes
  Value :: bytes

datatype error =
    ErrDeadline
  | TableNotFound
  | BrokenMeta Cell
  | NumError num_error
  | Foreign nat

text \<open>A \<open>*pb.GetResponse\<close>: its \<open>Result\<close> is nil (\<open>None\<close>) or a row, a list of cells.\<close>

record GetResponse =
  Result :: "Cell list option"

text \<open>\<open>bytes.IndexByte\<close>: the index of the first occurrence of the byte, or -1.\<close>

fun IndexByte :: "bytes \<Rightarrow> char \<Rightarrow> int" where
  "IndexByte [] c = - 1"
| "IndexByte (x # xs) c =
     (if x = c then 0 else (let i = IndexByte xs c in if i < 0 then - 1 else i + 1))"

text \<open>
  \<open>strconv.ParseUint(s, 10, 16)\<close> of the Go standard library: the empty string and any
  byte that is not a decimal digit are syntax errors, a value above \<open>1<<16 - 1\<close> is a
  range error, reported at the first digit that exceeds it. \<open>is_digit c\<close> is the test
  \<open>'0' <= c && c <= '9'\<close> and \<open>digit_val c\<close> is \<open>c - '0'\<close>.
\<close>

definition is_digit :: "char \<Rightarrow> bool" where
  "is_digit c \<longleftrightarrow> 48 \<le> (of_char c :: nat) \<and> (of_char c :: nat) \<le> 57"

definition digit_val :: "char \<Rightarrow> nat" where
  "digit_val c = (of_char c :: nat) - 48"

fun ParseUint_loop :: "nat \<Rightarrow> bytes \<Rightarrow> num_error + nat" where
  "ParseUint_loop n [] = Inr n"
| "ParseUint_loop n (c # s) =
     (if is_digit c then
        (let d = digit_val c
         in if 2 ^ 64 div 10 + 1 \<le> n then Inl ErrRange
            else if 2 ^ 16 - 1 < n * 10 + d then Inl ErrRange
            else ParseUint_loop (n * 10 + d) s)
      else Inl ErrSyntax)"

definition ParseUint_10_16 :: "bytes \<Rightarrow> num_error + nat" where
  "ParseUint_10_16 s = (if s = [] then Inl ErrSyntax else ParseUint_loop 0 s)"

section \<open>The client and its collaborators\<close>

text \<open>
  A \<open>*region.Client\<close> that is not nil is the address of a connection. The client holds
  the key-to-region tree, the region-to-client map (keyed by the pointer), the
  connection to the server of the meta table (nil is \<open>None\<close>) and the quorum address.
\<close>

record Client =
  c_regions :: "(bytes, Info ptr) Tree"
  c_clients :: "Info ptr \<rightharpoonup> nat"
  c_metaClient :: "nat option"
  c_zkquorum :: string

text \<open>
  What the file calls but does not define is a parameter of the model:
  \<open>region.CompareGeneric\<close> (the comparator of the tree), \<open>region.InfoFromCell\<close> (the
  decoder of a \<open>regioninfo\<close> cell, returning a pointer to the decoded Info) and the
  variable \<open>newRegion\<close>, the connection constructor that tests replace.
\<close>

record env =
  CompareGeneric :: "bytes \<Rightarrow> bytes \<Rightarrow> int"
  InfoFromCell :: "Cell \<Rightarrow> error + Info ptr"
  newRegion :: "bytes \<Rightarrow> nat \<Rightarrow> error + nat"

text \<open>\<open>regionClientCache.get\<close> and \<open>put\<close>, each one atomic step under the mutex.\<close>

definition regionClientCache_get :: "(Info ptr \<rightharpoonup> nat) \<Rightarrow> Info ptr \<Rightarrow> nat option" where
  "regionClientCache_get clients r = clients r"

definition regionClientCache_put ::
  "(Info ptr \<rightharpoonup> nat) \<Rightarrow> Info ptr \<Rightarrow> nat \<Rightarrow> (Info ptr \<rightharpoonup> nat)" where
  "regionClientCache_put clients r c = clients(r \<mapsto> c)"

section \<open>Publishing a discovered region\<close>

text \<open>
  \<open>Client.addRegionToCache\<close> is two atomic steps, each under the mutex of its own
  cache: the put into the region-to-client map, then the put into the tree under
  \<open>reg.RegionName\<close>. Reading \<open>reg.RegionName\<close> through a nil pointer panics, after the
  first step has been done.
\<close>

definition publish_client :: "Client \<Rightarrow> Info ptr \<Rightarrow> nat \<Rightarrow> Client" where
  "publish_client c reg client = c\<lparr>c_clients := regionClientCache_put (c_clients c) reg client\<rparr>"

definition publish_region :: "env \<Rightarrow> Client \<Rightarrow> Info ptr \<Rightarrow> (panic + unit) \<times> Client" where
  "publish_region env c reg =
     (case reg of
        Null \<Rightarrow> (Inl NilDereference, c)
      | Ref a info \<Rightarrow>
          (Inr (), c\<lparr>c_regions := snd (put (CompareGeneric env) (c_regions c) (RegionName info) reg)\<rparr>))"

definition addRegionToCache :: "env \<Rightarrow> Client \<Rightarrow> Info ptr \<Rightarrow> nat \<Rightarrow> (panic + unit) \<times> Client" where
  "addRegionToCache env c reg client = publish_region env (publish_client c reg client) reg"

text \<open>
  Several threads publish at once. Each thread runs \<open>addRegionToCache\<close> on its own
  region and connection; a step of the system is one atomic step of one thread.
\<close>

datatype pc = BeforeClientsPut | BeforeRegionsPut | Finished | Panicked

record thread =
  t_reg :: "Info ptr"
  t_client :: nat
  t_pc :: pc

inductive publish_step :: "env \<Rightarrow> Client \<times> thread list \<Rightarrow> Client \<times> thread list \<Rightarrow> bool"
  for env :: env where
  clients_put:
    "i < length ts \<Longrightarrow> t_pc (ts ! i) = BeforeClientsPut \<Longrightarrow>
     publish_step env (c, ts)
       (publish_client c (t_reg (ts ! i)) (t_client (ts ! i)),
        ts[i := (ts ! i)\<lparr>t_pc := BeforeRegionsPut\<rparr>])"
| regions_put:
    "i < length ts \<Longrightarrow> t_pc (ts ! i) = BeforeRegionsPut \<Longrightarrow>
     publish_region env c (t_reg (ts ! i)) = (Inr (), c') \<Longrightarrow>
     publish_step env (c, ts) (c', ts[i := (ts ! i)\<lparr>t_pc := Finished\<rparr>])"
| regions_put_panic:
    "i < length ts \<Longrightarrow> t_pc (ts ! i) = BeforeRegionsPut \<Longrightarrow>
     publish_region env c (t_reg (ts ! i)) = (Inl p, c') \<Longrightarrow>
     publish_step env (c, ts) (c', ts[i := (ts ! i)\<lparr>t_pc := Panicked\<rparr>])"

text \<open>
  The consistency of the two caches: every region that the tree holds has an entry in
  the region-to-client map.
\<close>

definition index_has_client :: "Client \<Rightarrow> bool" where
  "index_has_client c \<longleftrightarrow> (\<forall>(k, r) \<in> set (c_regions c). c_clients c r \<noteq> None)"

text \<open>
  The invariant of the interleaved system: the caches are consistent, and a thread
  that has done its first step has left an entry for its region in the map.
\<close>

definition sys_inv :: "Client \<times> thread list \<Rightarrow> bool" where
  "sys_inv s \<longleftrightarrow>
     index_has_client (fst s) \<and>
     (\<forall>t \<in> set (snd s). t_pc t = BeforeRegionsPut \<longrightarrow> c_clients (fst s) (t_reg t) \<noteq> None)"

section \<open>Parsing a row of the meta table\<close>

text \<open>
  The loop of \<open>Client.discoverRegion\<close> over the cells of the row, on the variables
  \<open>host\<close>, \<open>port\<close> and \<open>reg\<close>; an error returns from the function at once.
\<close>

fun discoverRegion_cells ::
  "env \<Rightarrow> Cell list \<Rightarrow> bytes \<times> nat \<times> Info ptr \<Rightarrow> error + (bytes \<times> nat \<times> Info ptr)" where
  "discoverRegion_cells env [] (host, port, reg) = Inr (host, port, reg)"
| "discoverRegion_cells env (cell # cells) (host, port, reg) =
     (if Qualifier cell = ''regioninfo'' then
        (case InfoFromCell env cell of
           Inl err \<Rightarrow> Inl err
         | Inr reg' \<Rightarrow> discoverRegion_cells env cells (host, port, reg'))
      else if Qualifier cell = ''server'' then
        (let value = Value cell
         in if length value = 0 then discoverRegion_cells env cells (host, port, reg)
            else
              (let colon = IndexByte value CHR '':''
               in if colon < 1 then Inl (BrokenMeta cell)
                  else
                    (case ParseUint_10_16 (drop (nat colon + 1) value) of
                       Inl e \<Rightarrow> Inl (NumError e)
                     | Inr portU64 \<Rightarrow>
                         discoverRegion_cells env cells
                           (take (nat colon) value, portU64 mod 2 ^ 16, reg))))
      else discoverRegion_cells env cells (host, port, reg))"

definition discoverRegion ::
  "env \<Rightarrow> Client \<Rightarrow> GetResponse \<Rightarrow> (panic + (error + nat \<times> Info ptr)) \<times> Client" where
  "discoverRegion env c metaRow =
     (case Result metaRow of
        None \<Rightarrow> (Inr (Inl TableNotFound), c)
      | Some cells \<Rightarrow>
          (case discoverRegion_cells env cells ([], 0, Null) of
             Inl err \<Rightarrow> (Inr (Inl err), c)
           | Inr (host, port, reg) \<Rightarrow>
               (case newRegion env host port of
                  Inl err \<Rightarrow> (Inr (Inl err), c)
                | Inr client \<Rightarrow>
                    (case addRegionToCache env c reg client of
                       (Inl p, c') \<Rightarrow> (Inl p, c')
                     | (Inr u, c') \<Rightarrow> (Inr (Inr (client, reg)), c')))))"

text \<open>
  In the words of the specification, for comparison with the checks of the loop: a
  port is a non-empty string of decimal digits whose value fits 16 bits, and a server
  value is malformed when it has no colon, or the colon is its first byte, or what
  follows the first colon is not a port.
\<close>

definition decimal_value :: "bytes \<Rightarrow> nat" where
  "decimal_value s = foldl (\<lambda>n c. n * 10 + digit_val c) 0 s"

definition is_port :: "bytes \<Rightarrow> bool" where
  "is_port s \<longleftrightarrow> s \<noteq> [] \<and> list_all is_digit s \<and> decimal_value s < 2 ^ 16"

definition server_malformed :: "bytes \<Rightarrow> bool" where
  "server_malformed v \<longleftrightarrow>
     CHR '':'' \<notin> set v \<or> hd v = CHR '':'' \<or>
     \<not> is_port (tl (dropWhile (\<lambda>c. c \<noteq> CHR '':'') v))"

section \<open>Calls and messages\<close>

text \<open>
  Modelled from the spec: the package \<open>hrpc\<close> (the calls) and the package \<open>pb\<close> (the
  messages) are not in the source file. A call is what the specification's data model
  says and what this file uses of it: table, row key, the context with the deadline,
  and the region-assignment fields that \<open>SetRegion\<close> writes and \<open>GetRegionStop\<close>
  reads; the constructors keep their arguments. A scan response holds the rows of a
  batch and a pointer to the scanner id (nil is \<open>None\<close>).
\<close>

datatype go_context = Background | Ctx nat

type_synonym families = "(string \<times> string list) list"

datatype call_kind =
    GetStr
  | GetBefore
  | ScanStr bytes bytes
  | ScanFromID nat
  | CloseFromID nat

record Call =
  rpc_kind :: call_kind
  rpc_ctx :: go_context
  rpc_table :: bytes
  rpc_key :: bytes
  rpc_families :: families
  rpc_region :: bytes
  rpc_regionStop :: bytes

definition NewGetBefore :: "go_context \<Rightarrow> bytes \<Rightarrow> bytes \<Rightarrow> families \<Rightarrow> Call" where
  "NewGetBefore ctx table key fam =
     \<lparr>rpc_kind = GetBefore, rpc_ctx = ctx, rpc_table = table, rpc_key = key,
      rpc_families = fam, rpc_region = [], rpc_regionStop = []\<rparr>"

definition NewScanStr :: "go_context \<Rightarrow> bytes \<Rightarrow> families \<Rightarrow> bytes \<Rightarrow> bytes \<Rightarrow> Call" where
  "NewScanStr ctx table fam startRow stopRow =
     \<lparr>rpc_kind = ScanStr startRow stopRow, rpc_ctx = ctx, rpc_table = table, rpc_key = startRow,
      rpc_families = fam, rpc_region = [], rpc_regionStop = []\<rparr>"

definition NewScanFromID :: "go_context \<Rightarrow> bytes \<Rightarrow> nat \<Rightarrow> bytes \<Rightarrow> Call" where
  "NewScanFromID ctx table scannerID startRow =
     \<lparr>rpc_kind = ScanFromID scannerID, rpc_ctx = ctx, rpc_table = table, rpc_key = startRow,
      rpc_families = [], rpc_region = [], rpc_regionStop = []\<rparr>"

definition NewCloseFromID :: "go_context \<Rightarrow> bytes \<Rightarrow> nat \<Rightarrow> bytes \<Rightarrow> Call" where
  "NewCloseFromID ctx table scannerID startRow =
     \<lparr>rpc_kind = CloseFromID scannerID, rpc_ctx = ctx, rpc_table = table, rpc_key = startRow,
      rpc_families = [], rpc_region = [], rpc_regionStop = []\<rparr>"

definition Key :: "Call \<Rightarrow> bytes" where
  "Key rpc = rpc_key rpc"

definition GetRegionStop :: "Call \<Rightarrow> bytes" where
  "GetRegionStop rpc = rpc_regionStop rpc"

definition SetRegion :: "Call \<Rightarrow> bytes \<Rightarrow> bytes \<Rightarrow> Call" where
  "SetRegion rpc region regionStop = rpc\<lparr>rpc_region := region, rpc_regionStop := regionStop\<rparr>"

record ScanResponse =
  Results :: "Cell list list"
  ScannerId :: "nat option"

datatype message = NilMessage | GetMsg GetResponse | ScanMsg ScanResponse | MutateMsg

text \<open>What a connection writes to the result channel of a call.\<close>

record RPCResult =
  Msg :: message
  Error :: "error option"

definition infoFamily :: families where
  "infoFamily = [(''info'', [])]"

section \<open>Waiting for the result of a call\<close>

text \<open>
  The \<open>select\<close> of \<open>sendRPC\<close> has two receive cases: the result channel of the call and
  the \<open>Done\<close> channel of its context. What the select meets is a sequence of
  observations of the two channels, one for each time it looks: whether a result is
  ready, whether the context is done and, for the case that both are, which of the two
  the Go runtime picks. The select blocks while neither is ready, and takes the only
  ready case otherwise. \<open>None\<close> is a select that is still blocked when the
  observations end.
\<close>

record ready =
  r_result :: "RPCResult option"
  r_done :: bool
  r_pick_result :: bool

fun select_wait :: "ready list \<Rightarrow> (message \<times> error option) option" where
  "select_wait [] = None"
| "select_wait (r # rs) =
     (case r_result r of
        None \<Rightarrow> if r_done r then Some (NilMessage, Some ErrDeadline) else select_wait rs
      | Some res \<Rightarrow>
          if r_done r \<and> \<not> r_pick_result r then Some (NilMessage, Some ErrDeadline)
          else Some (Msg res, Error res))"

text \<open>An observation in which neither channel is ready.\<close>

definition idle :: "ready \<Rightarrow> bool" where
  "idle r \<longleftrightarrow> r_result r = None \<and> \<not> r_done r"

section \<open>Routing a call\<close>

text \<open>
  The collaborators reached over the network are parameters, on a state \<open>'w\<close> of the
  world outside the client: \<open>zk.LocateMeta\<close>, \<open>region.NewClient\<close>, the blocking
  \<open>SendRPC\<close> and the non-blocking \<open>QueueRPC\<close> of a connection, and what the select of
  \<open>sendRPC\<close> observes for a call that has been queued.
\<close>

record 'w net =
  LocateMeta :: "string \<Rightarrow> error + bytes \<times> nat"
  NewClient :: "bytes \<Rightarrow> nat \<Rightarrow> error + nat"
  SendRPC :: "'w \<Rightarrow> nat \<Rightarrow> Call \<Rightarrow> (error + message) \<times> 'w"
  QueueRPC :: "'w \<Rightarrow> nat \<Rightarrow> Call \<Rightarrow> 'w"
  observe :: "'w \<Rightarrow> Call \<Rightarrow> ready list \<times> 'w"

definition clientFor :: "Client \<Rightarrow> Info ptr \<Rightarrow> nat option" where
  "clientFor c region =
     (if region = metaRegionInfo then c_metaClient c
      else regionClientCache_get (c_clients c) region)"

text \<open>\<open>Client.locateMeta\<close>; the log lines are left out. \<open>None\<close> is the nil error.\<close>

definition locateMeta :: "'w net \<Rightarrow> Client \<Rightarrow> error option \<times> Client" where
  "locateMeta net c =
     (case LocateMeta net (c_zkquorum c) of
        Inl err \<Rightarrow> (Some err, c)
      | Inr (host, port) \<Rightarrow>
          (case NewClient net host port of
             Inl err \<Rightarrow> (Some err, c\<lparr>c_metaClient := None\<rparr>)
           | Inr mc \<Rightarrow> (None, c\<lparr>c_metaClient := Some mc\<rparr>)))"

text \<open>
  \<open>Client.locateRegion\<close>. A method call through a nil connection and a failed type
  assertion on the response are panics.
\<close>

definition locateRegion ::
  "env \<Rightarrow> 'w net \<Rightarrow> Client \<times> 'w \<Rightarrow> bytes \<Rightarrow> bytes \<Rightarrow>
   (panic + (error + nat \<times> Info ptr)) \<times> Client \<times> 'w" where
  "locateRegion env net s table key =
     (case s of (c, w) \<Rightarrow>
        (case (if c_metaClient c = None then locateMeta net c else (None, c)) of
           (Some err, c1) \<Rightarrow> (Inr (Inl err), c1, w)
         | (None, c1) \<Rightarrow>
             (let metaKey = createRegionSearchKey table key;
                  rpc = SetRegion (NewGetBefore Background metaTableName metaKey infoFamily)
                          (RegionName metaInfo) (StopKey metaInfo)
              in case c_metaClient c1 of
                   None \<Rightarrow> (Inl NilDereference, c1, w)
                 | Some mc \<Rightarrow>
                     (case SendRPC net w mc rpc of
                        (Inl err, w') \<Rightarrow> (Inr (Inl err), c1, w')
                      | (Inr (GetMsg resp), w') \<Rightarrow>
                          (case discoverRegion env c1 resp of (r, c2) \<Rightarrow> (r, c2, w'))
                      | (Inr other, w') \<Rightarrow> (Inl TypeAssertion, c1, w')))))"

text \<open>
  \<open>Client.queueRPC\<close>: the error it returns (\<open>None\<close> is nil), the call with its region
  fields, and the new state.
\<close>

definition queueRPC ::
  "env \<Rightarrow> 'w net \<Rightarrow> Client \<times> 'w \<Rightarrow> Call \<Rightarrow> (panic + error option) \<times> Call \<times> Client \<times> 'w" where
  "queueRPC env net s rpc =
     (case s of (c, w) \<Rightarrow>
        (case getRegion (CompareGeneric env) (c_regions c) (rpc_table rpc) (Key rpc) of
           Inl p \<Rightarrow> (Inl p, rpc, c, w)
         | Inr reg \<Rightarrow>
             (case (if reg \<noteq> Null then (Inr (Inr (clientFor c reg, reg)), c, w)
                    else (case locateRegion env net (c, w) (rpc_table rpc) (Key rpc) of
                            (Inl p, s') \<Rightarrow> (Inl p, s')
                          | (Inr (Inl err), s') \<Rightarrow> (Inr (Inl err), s')
                          | (Inr (Inr (client, reg')), s') \<Rightarrow> (Inr (Inr (Some client, reg')), s'))) of
                (Inl p, c', w') \<Rightarrow> (Inl p, rpc, c', w')
              | (Inr (Inl err), c', w') \<Rightarrow> (Inr (Some err), rpc, c', w')
              | (Inr (Inr (client, Null)), c', w') \<Rightarrow> (Inl NilDereference, rpc, c', w')
              | (Inr (Inr (client, Ref a info)), c', w') \<Rightarrow>
                  (let rpc' = SetRegion rpc (RegionName info) (StopKey info)
                   in case client of
                        None \<Rightarrow> (Inl NilDereference, rpc', c', w')
                      | Some cl \<Rightarrow> (Inr None, rpc', c', QueueRPC net w' cl rpc')))))"

text \<open>
  \<open>Client.sendRPC\<close>: what it returns (\<open>None\<close> when it never does), the call and the new
  state. The returned pair is the message and the error of the Go function.
\<close>

definition sendRPC ::
  "env \<Rightarrow> 'w net \<Rightarrow> Client \<times> 'w \<Rightarrow> Call \<Rightarrow>
   (panic + message \<times> error option) option \<times> Call \<times> Client \<times> 'w" where
  "sendRPC env net s rpc =
     (case queueRPC env net s rpc of
        (Inl p, rpc', s') \<Rightarrow> (Some (Inl p), rpc', s')
      | (Inr (Some err), rpc', s') \<Rightarrow> (Some (Inr (NilMessage, Some err)), rpc', s')
      | (Inr None, rpc', c', w') \<Rightarrow>
          (case observe net w' rpc' of
             (obs, w'') \<Rightarrow>
               (case select_wait obs of
                  None \<Rightarrow> (None, rpc', c', w'')
                | Some res \<Rightarrow> (Some (Inr res), rpc', c', w''))))"

section \<open>Scanning a range of rows\<close>

text \<open>
  \<open>Client.Scan\<close> is an outer loop over the regions with an inner loop over the
  batches of a region. Both may run for ever, so the model is one recursion on fuel
  over the two loop heads, with the variables \<open>rpc\<close>, \<open>scanres\<close> and \<open>err\<close> as they
  stand there: \<open>OuterLoop rpc\<close> is the start of the outer body (\<open>rpc\<close> is nil,
  \<open>None\<close>, before the first region only), \<open>InnerLoop rpc scanres err\<close> is the test of
  the inner loop, which is followed on exit by the rest of the outer body. \<open>None\<close>
  is a scan that has not returned when the fuel is used up, or that waits for ever in
  a call. The calls go through \<open>send\<close>, which is \<open>c.sendRPC\<close>: it returns the
  outcome, the call as \<open>SetRegion\<close> has left it, and the new state of client and
  network.
\<close>

type_synonym 's sender =
  "'s \<Rightarrow> Call \<Rightarrow> (panic + message \<times> error option) option \<times> Call \<times> 's"

type_synonym scan_result = "(panic + Cell list list \<times> error option) option"

text \<open>
  The scan-open call and the fetch of the next batch are the same four lines:
  \<open>res, err := c.sendRPC(rpc)\<close>, the return of \<open>nil, err\<close> on an error, the type
  assertion to a scan response and (left to the caller) the append. \<open>Inl\<close> is the end
  of the scan, \<open>Inr\<close> the response with the variables \<open>err\<close> and \<open>rpc\<close> and the state.
\<close>

definition send_scan ::
  "'s sender \<Rightarrow> 's \<Rightarrow> Call \<Rightarrow> scan_result + ScanResponse \<times> error option \<times> Call \<times> 's" where
  "send_scan send s rpc =
     (case send s rpc of
        (None, rpc', s') \<Rightarrow> Inl None
      | (Some (Inl p), rpc', s') \<Rightarrow> Inl (Some (Inl p))
      | (Some (Inr (res, err)), rpc', s') \<Rightarrow>
          if err \<noteq> None then Inl (Some (Inr ([], err)))
          else
            (case res of
               ScanMsg scanres \<Rightarrow> Inr (scanres, err, rpc', s')
             | other \<Rightarrow> Inl (Some (Inl TypeAssertion))))"

text \<open>
  The close call, \<open>res, err = c.sendRPC(rpc)\<close>: nothing reads \<open>res\<close> or \<open>err\<close> after it.
  \<open>Inr\<close> is the call as \<open>sendRPC\<close> has left it, and the state.
\<close>

definition send_close :: "'s sender \<Rightarrow> 's \<Rightarrow> Call \<Rightarrow> scan_result + Call \<times> 's" where
  "send_close send s rpc =
     (case send s rpc of
        (None, rpc', s') \<Rightarrow> Inl None
      | (Some (Inl p), rpc', s') \<Rightarrow> Inl (Some (Inl p))
      | (Some (Inr (res, err)), rpc', s') \<Rightarrow> Inr (rpc', s'))"

datatype loop_point = OuterLoop "Call option" | InnerLoop Call ScanResponse "error option"

primrec scan_loop ::
  "nat \<Rightarrow> 's sender \<Rightarrow> 's \<Rightarrow> go_context \<Rightarrow> bytes \<Rightarrow> families \<Rightarrow> bytes \<Rightarrow> bytes \<Rightarrow>
   loop_point \<Rightarrow> Cell list list \<Rightarrow> scan_result" where
  "scan_loop 0 send s ctx table fam startRow stopRow at results = None"
| "scan_loop (Suc n) send s ctx table fam startRow stopRow at results =
     (case at of
        OuterLoop rpc \<Rightarrow>
          (case send_scan send s
                  (case rpc of
                     None \<Rightarrow> NewScanStr ctx table fam startRow stopRow
                   | Some prev \<Rightarrow> NewScanStr ctx table fam (GetRegionStop prev) stopRow) of
             Inl final \<Rightarrow> final
           | Inr (scanres, err, rpc', s') \<Rightarrow>
               scan_loop n send s' ctx table fam startRow stopRow
                 (InnerLoop rpc' scanres err) (results @ Results scanres))
      | InnerLoop rpc scanres err \<Rightarrow>
          if length (Results scanres) \<noteq> 0 then
            (case ScannerId scanres of
               None \<Rightarrow> Some (Inl NilDereference)
             | Some scannerId \<Rightarrow>
                 (case send_scan send s (NewScanFromID ctx table scannerId (Key rpc)) of
                    Inl final \<Rightarrow> final
                  | Inr (scanres', err', rpc', s') \<Rightarrow>
                      scan_loop n send s' ctx table fam startRow stopRow
                        (InnerLoop rpc' scanres' err') (results @ Results scanres')))
          else
            (case ScannerId scanres of
               None \<Rightarrow> Some (Inl NilDereference)
             | Some scannerId \<Rightarrow>
                 if err \<noteq> None then Some (Inr ([], err))
                 else
                   (case send_close send s (NewCloseFromID ctx table scannerId (Key rpc)) of
                      Inl final \<Rightarrow> final
                    | Inr (rpc', s') \<Rightarrow>
                        if length (GetRegionStop rpc') = 0 \<or>
                           (length stopRow \<noteq> 0 \<and>
                            bytes_Compare stopRow (GetRegionStop rpc') \<le> 0)
                        then Some (Inr (results, None))
                        else scan_loop n send s' ctx table fam startRow stopRow
                               (OuterLoop (Some rpc')) results)))"

definition Scan ::
  "'s sender \<Rightarrow> nat \<Rightarrow> 's \<Rightarrow> go_context \<Rightarrow> bytes \<Rightarrow> families \<Rightarrow> bytes \<Rightarrow> bytes \<Rightarrow>
   scan_result" where
  "Scan send fuel s ctx table fam startRow stopRow =
     scan_loop fuel send s ctx table fam startRow stopRow (OuterLoop None) []"

text \<open>\<open>Client.Scan\<close> on the \<open>sendRPC\<close> of the client.\<close>

definition Client_Scan ::
  "env \<Rightarrow> 'w net \<Rightarrow> nat \<Rightarrow> Client \<times> 'w \<Rightarrow> go_context \<Rightarrow> bytes \<Rightarrow> families \<Rightarrow> bytes \<Rightarrow> bytes \<Rightarrow>
   scan_result" where
  "Client_Scan env net fuel s ctx table fam startRow stopRow =
     Scan (sendRPC env net) fuel s ctx table fam startRow stopRow"

section \<open>Byte comparison and the tree comparator\<close>

lemma bytes_Compare_range: "bytes_Compare a b \<in> {- 1, 0, 1}"
  by (induction a b rule: bytes_Compare.induct) auto

lemma bytes_Compare_less_iff: "bytes_Compare a b < 0 \<longleftrightarrow> (a, b) \<in> lexord byte_less"
  by (induction a b rule: bytes_Compare.induct) (auto simp: byte_less_def)

lemma bytes_Compare_eq_iff: "bytes_Compare a b = 0 \<longleftrightarrow> a = b"
  by (induction a b rule: bytes_Compare.induct) (auto simp: byte_less_def)

lemma bytes_Compare_swap: "bytes_Compare a b < 0 \<longleftrightarrow> 0 < bytes_Compare b a"
  by (induction a b rule: bytes_Compare.induct) (auto simp: byte_less_def)

lemma trans_byte_less: "trans byte_less"
  by (auto simp: trans_def byte_less_def)

lemma bytes_Compare_trans:
  "bytes_Compare a b < 0 \<Longrightarrow> bytes_Compare b c < 0 \<Longrightarrow> bytes_Compare a c < 0"
  unfolding bytes_Compare_less_iff using lexord_trans[OF _ _ trans_byte_less] by blast

lemma comparator_ok_bytes_Compare: "comparator_ok bytes_Compare"
  unfolding comparator_ok_def
  using bytes_Compare_eq_iff bytes_Compare_swap bytes_Compare_trans by blast

lemma seek_index_le: "seek_index cmp t k \<le> length t"
  by (induction t) auto

lemma seek_index_before: "j < seek_index cmp t k \<Longrightarrow> 0 < cmp k (fst (t ! j))"
proof (induction t arbitrary: j)
  case Nil
  then show ?case by simp
next
  case (Cons item items)
  then show ?case by (cases j) (auto split: if_splits)
qed

lemma seek_index_at:
  "seek_index cmp t k < length t \<Longrightarrow> cmp k (fst (t ! seek_index cmp t k)) \<le> 0"
  by (induction t) (auto split: if_splits)

lemma get_eq:
  "get cmp t key =
     (let i = seek_index cmp t key
      in if i < length t \<and> cmp key (fst (t ! i)) = 0 then Some (t ! i)
         else if i = 0 then (if t = [] then None else Some (last t))
         else if i = 1 then None
         else Some (t ! (i - 2)))"
proof -
  let ?i = "seek_index cmp t key"
  have le: "?i \<le> length t" by (rule seek_index_le)
  show ?thesis
  proof (cases "?i < length t \<and> cmp key (fst (t ! ?i)) = 0")
    case True
    then have "t \<noteq> []" by auto
    with True show ?thesis
      by (simp add: get_def Seek_def Prev_def step_back_def Last_def Len_def Let_def)
  next
    case miss: False
    show ?thesis
    proof (cases "t = []")
      case True
      then show ?thesis
        by (simp add: get_def Seek_def Prev_def step_back_def Last_def Len_def Let_def)
    next
      case ne: False
      consider (zero) "?i = 0" | (one) "?i = 1" | (more) "2 \<le> ?i" by linarith
      then show ?thesis
      proof cases
        case zero
        with miss ne show ?thesis
          by (simp add: get_def Seek_def Prev_def step_back_def Last_def Len_def Let_def)
      next
        case one
        with miss ne le show ?thesis
          by (simp add: get_def Seek_def Prev_def step_back_def Last_def Len_def Let_def)
      next
        case more
        with miss ne le show ?thesis
          by (auto simp: get_def Seek_def Prev_def step_back_def Last_def Len_def Let_def
              numeral_2_eq_2)
      qed
    qed
  qed
qed

section \<open>The lookup of the key-to-region cache\<close>

lemma cmp_flip_le: "comparator_ok cmp \<Longrightarrow> 0 < cmp a b \<Longrightarrow> cmp b a < 0"
  by (simp add: comparator_ok_def)

lemma cmp_refl: "comparator_ok cmp \<Longrightarrow> cmp a a = 0"
  by (simp add: comparator_ok_def)

text \<open>
  On a sorted tree, the entry just below the place where \<open>Seek\<close> stops is the one with
  the greatest key below a search key that is not stored. \<open>get\<close> never returns it.
\<close>

lemma get_miss_not_floor:
  assumes ok: "comparator_ok cmp" and srt: "tree_sorted cmp t"
    and pos: "0 < seek_index cmp t key"
    and miss: "\<not> (seek_index cmp t key < length t \<and>
                   cmp key (fst (t ! seek_index cmp t key)) = 0)"
  shows "get cmp t key \<noteq> Some (t ! (seek_index cmp t key - 1))"
proof
  let ?i = "seek_index cmp t key"
  assume g: "get cmp t key = Some (t ! (?i - 1))"
  have le: "?i \<le> length t" by (rule seek_index_le)
  from g pos miss have two: "2 \<le> ?i" and eq: "t ! (?i - 2) = t ! (?i - 1)"
    by (auto simp: get_eq Let_def split: if_splits)
  from two le have "?i - 2 < ?i - 1" "?i - 1 < length t" by linarith+
  with srt have "cmp (fst (t ! (?i - 2))) (fst (t ! (?i - 1))) < 0"
    by (simp add: tree_sorted_def sorted_wrt_iff_nth_less)
  with eq cmp_refl[OF ok] show False by simp
qed

text \<open>
  Claim C1, at failing inputs. The tree holds the three regions of a table, with the
  start keys \<open>""\<close>, \<open>d\<close> and \<open>m\<close>. For a search key inside the first region
  \<open>keyRegionCache.get\<close> returns absent; inside the second region it returns the first
  entry; past every stored key it returns the second entry, not the last; and before
  the first stored key it returns the last entry. None of these is the entry with the
  greatest stored key that is not above the search key.
\<close>

theorem get_not_floor:
  "tree_sorted bytes_Compare
     [(''t,,1'', Ref 1 \<lparr>Table = ''t'', RegionName = ''t,,1'', StopKey = ''d''\<rparr>),
      (''t,d,1'', Ref 2 \<lparr>Table = ''t'', RegionName = ''t,d,1'', StopKey = ''m''\<rparr>),
      (''t,m,1'', Ref 3 \<lparr>Table = ''t'', RegionName = ''t,m,1'', StopKey = []\<rparr>)] \<and>
   get bytes_Compare
     [(''t,,1'', Ref 1 \<lparr>Table = ''t'', RegionName = ''t,,1'', StopKey = ''d''\<rparr>),
      (''t,d,1'', Ref 2 \<lparr>Table = ''t'', RegionName = ''t,d,1'', StopKey = ''m''\<rparr>),
      (''t,m,1'', Ref 3 \<lparr>Table = ''t'', RegionName = ''t,m,1'', StopKey = []\<rparr>)]
     ''t,a,:'' = None \<and>
   get bytes_Compare
     [(''t,,1'', Ref 1 \<lparr>Table = ''t'', RegionName = ''t,,1'', StopKey = ''d''\<rparr>),
      (''t,d,1'', Ref 2 \<lparr>Table = ''t'', RegionName = ''t,d,1'', StopKey = ''m''\<rparr>),
      (''t,m,1'', Ref 3 \<lparr>Table = ''t'', RegionName = ''t,m,1'', StopKey = []\<rparr>)]
     ''t,e,:''
     = Some (''t,,1'', Ref 1 \<lparr>Table = ''t'', RegionName = ''t,,1'', StopKey = ''d''\<rparr>) \<and>
   get bytes_Compare
     [(''t,,1'', Ref 1 \<lparr>Table = ''t'', RegionName = ''t,,1'', StopKey = ''d''\<rparr>),
      (''t,d,1'', Ref 2 \<lparr>Table = ''t'', RegionName = ''t,d,1'', StopKey = ''m''\<rparr>),
      (''t,m,1'', Ref 3 \<lparr>Table = ''t'', RegionName = ''t,m,1'', StopKey = []\<rparr>)]
     ''t,z,:''
     = Some (''t,d,1'', Ref 2 \<lparr>Table = ''t'', RegionName = ''t,d,1'', StopKey = ''m''\<rparr>) \<and>
   get bytes_Compare
     [(''t,,1'', Ref 1 \<lparr>Table = ''t'', RegionName = ''t,,1'', StopKey = ''d''\<rparr>),
      (''t,d,1'', Ref 2 \<lparr>Table = ''t'', RegionName = ''t,d,1'', StopKey = ''m''\<rparr>),
      (''t,m,1'', Ref 3 \<lparr>Table = ''t'', RegionName = ''t,m,1'', StopKey = []\<rparr>)]
     ''s,a,:''
     = Some (''t,m,1'', Ref 3 \<lparr>Table = ''t'', RegionName = ''t,m,1'', StopKey = []\<rparr>)"
  by (simp add: tree_sorted_def get_def Seek_def Prev_def step_back_def Last_def Len_def)

lemma Put_set: "set (snd (Put cmp t k v)) \<subseteq> insert (k, v) (set t)"
  by (induction t) (auto split: prod.splits)

lemma Put_sorted:
  assumes ok: "comparator_ok cmp"
  shows "tree_sorted cmp t \<Longrightarrow> tree_sorted cmp (snd (Put cmp t k v))"
proof (induction t)
  case Nil
  then show ?case by (simp add: tree_sorted_def)
next
  case (Cons item items)
  then have tl: "tree_sorted cmp items"
    and hd: "\<forall>x \<in> set items. cmp (fst item) (fst x) < 0"
    by (auto simp: tree_sorted_def)
  consider (gt) "0 < cmp k (fst item)" | (eq) "cmp k (fst item) = 0" | (lt) "cmp k (fst item) < 0"
    by linarith
  then show ?case
  proof cases
    case gt
    then have "cmp (fst item) k < 0" by (rule cmp_flip_le[OF ok])
    with hd Put_set[of cmp items k v]
    have "\<forall>x \<in> set (snd (Put cmp items k v)). cmp (fst item) (fst x) < 0" by auto
    with gt Cons.IH[OF tl] show ?thesis
      by (auto simp: tree_sorted_def split: prod.splits)
  next
    case eq
    with ok have "k = fst item" by (simp add: comparator_ok_def)
    with eq Cons.prems show ?thesis by (simp add: tree_sorted_def)
  next
    case lt
    have "\<forall>x \<in> set items. cmp k (fst x) < 0"
      using ok lt hd unfolding comparator_ok_def by blast
    with lt Cons.prems show ?thesis by (auto simp: tree_sorted_def)
  qed
qed

section \<open>The table check of a cache hit\<close>

lemma all_from_Suc:
  assumes "P (i::nat)"
  shows "(\<forall>j. i \<le> j \<and> j < n \<longrightarrow> P j) \<longleftrightarrow> (\<forall>j. i + 1 \<le> j \<and> j < n \<longrightarrow> P j)"
proof (intro iffI allI impI)
  fix j
  assume "\<forall>j. i \<le> j \<and> j < n \<longrightarrow> P j" and "i + 1 \<le> j \<and> j < n"
  then show "P j" by simp
next
  fix j
  assume a: "\<forall>j. i + 1 \<le> j \<and> j < n \<longrightarrow> P j" and b: "i \<le> j \<and> j < n"
  show "P j"
  proof (cases "j = i")
    case True
    with assms show ?thesis by simp
  next
    case False
    with b have "i + 1 \<le> j" by simp
    with a b show ?thesis by blast
  qed
qed

lemma loop_panic_iff:
  "i \<le> length table \<Longrightarrow>
   (\<exists>p. isCacheKeyForTable_loop table cacheKey i = Inl p) \<longleftrightarrow>
   (length cacheKey \<le> length table \<and> (\<forall>j. i \<le> j \<and> j < length cacheKey \<longrightarrow> table ! j = cacheKey ! j))"
proof (induction table cacheKey i rule: isCacheKeyForTable_loop.induct)
  case (1 table cacheKey i)
  show ?case
  proof (cases "i < length table")
    case False
    with "1.prems" have "i = length table" by simp
    then show ?thesis
      by (subst isCacheKeyForTable_loop.simps) (auto simp: index_def)
  next
    case lt: True
    show ?thesis
    proof (cases "i < length cacheKey")
      case False
      with lt show ?thesis
        by (subst isCacheKeyForTable_loop.simps) (auto simp: index_def)
    next
      case True
      show ?thesis
      proof (cases "table ! i = cacheKey ! i")
        case False
        with lt True show ?thesis
          by (subst isCacheKeyForTable_loop.simps) (auto simp: index_def)
      next
        case eq: True
        have ih: "(\<exists>p. isCacheKeyForTable_loop table cacheKey (i + 1) = Inl p) \<longleftrightarrow>
          (length cacheKey \<le> length table \<and>
           (\<forall>j. i + 1 \<le> j \<and> j < length cacheKey \<longrightarrow> table ! j = cacheKey ! j))"
          using "1.IH"[of "cacheKey ! i"] lt True eq by (simp add: index_def)
        have step: "isCacheKeyForTable_loop table cacheKey i =
                    isCacheKeyForTable_loop table cacheKey (i + 1)"
          using lt True eq by (subst isCacheKeyForTable_loop.simps) (simp add: index_def)
        have "(\<forall>j. i \<le> j \<and> j < length cacheKey \<longrightarrow> table ! j = cacheKey ! j) \<longleftrightarrow>
              (\<forall>j. i + 1 \<le> j \<and> j < length cacheKey \<longrightarrow> table ! j = cacheKey ! j)"
          using eq by (rule all_from_Suc)
        with ih step show ?thesis by simp
      qed
    qed
  qed
qed

lemma loop_true_iff:
  "i \<le> length table \<Longrightarrow>
   isCacheKeyForTable_loop table cacheKey i = Inr True \<longleftrightarrow>
   (length table < length cacheKey \<and>
    (\<forall>j. i \<le> j \<and> j < length table \<longrightarrow> table ! j = cacheKey ! j) \<and>
    cacheKey ! length table = CHR '','')"
proof (induction table cacheKey i rule: isCacheKeyForTable_loop.induct)
  case (1 table cacheKey i)
  show ?case
  proof (cases "i < length table")
    case False
    with "1.prems" have "i = length table" by simp
    then show ?thesis
      by (subst isCacheKeyForTable_loop.simps) (auto simp: index_def)
  next
    case lt: True
    show ?thesis
    proof (cases "i < length cacheKey")
      case False
      with lt show ?thesis
        by (subst isCacheKeyForTable_loop.simps) (auto simp: index_def)
    next
      case True
      show ?thesis
      proof (cases "table ! i = cacheKey ! i")
        case False
        with lt True show ?thesis
          by (subst isCacheKeyForTable_loop.simps) (auto simp: index_def)
      next
        case eq: True
        have ih: "isCacheKeyForTable_loop table cacheKey (i + 1) = Inr True \<longleftrightarrow>
          (length table < length cacheKey \<and>
           (\<forall>j. i + 1 \<le> j \<and> j < length table \<longrightarrow> table ! j = cacheKey ! j) \<and>
           cacheKey ! length table = CHR '','')"
          using "1.IH"[of "cacheKey ! i"] lt True eq by (simp add: index_def)
        have step: "isCacheKeyForTable_loop table cacheKey i =
                    isCacheKeyForTable_loop table cacheKey (i + 1)"
          using lt True eq by (subst isCacheKeyForTable_loop.simps) (simp add: index_def)
        have "(\<forall>j. i \<le> j \<and> j < length table \<longrightarrow> table ! j = cacheKey ! j) \<longleftrightarrow>
              (\<forall>j. i + 1 \<le> j \<and> j < length table \<longrightarrow> table ! j = cacheKey ! j)"
          using eq by (rule all_from_Suc)
        with ih step show ?thesis by simp
      qed
    qed
  qed
qed

lemma loop_self:
  "cacheKey = table \<Longrightarrow> i \<le> length table \<Longrightarrow>
   isCacheKeyForTable_loop table cacheKey i = Inl (IndexOutOfRange (length table) (length table))"
proof (induction table cacheKey i rule: isCacheKeyForTable_loop.induct)
  case (1 table cacheKey i)
  show ?case
  proof (cases "i < length table")
    case False
    with "1.prems" show ?thesis
      by (subst isCacheKeyForTable_loop.simps) (simp add: index_def)
  next
    case True
    have "isCacheKeyForTable_loop table cacheKey (i + 1) =
          Inl (IndexOutOfRange (length table) (length table))"
      using "1.IH"[of "cacheKey ! i"] True "1.prems" by (simp add: index_def)
    with True "1.prems" show ?thesis
      by (subst isCacheKeyForTable_loop.simps) (simp add: index_def)
  qed
qed

lemma prefix_nth_iff:
  "prefix xs ys \<longleftrightarrow> length xs \<le> length ys \<and> (\<forall>j. j < length xs \<longrightarrow> ys ! j = xs ! j)"
proof
  assume "prefix xs ys"
  then obtain zs where "ys = xs @ zs" by (auto simp: prefix_def)
  then show "length xs \<le> length ys \<and> (\<forall>j. j < length xs \<longrightarrow> ys ! j = xs ! j)"
    by (simp add: nth_append)
next
  assume a: "length xs \<le> length ys \<and> (\<forall>j. j < length xs \<longrightarrow> ys ! j = xs ! j)"
  then have "xs = take (length xs) ys"
    by (intro nth_equalityI) auto
  then show "prefix xs ys"
    by (metis take_is_prefix)
qed

lemma isCacheKeyForTable_panic_iff:
  "(\<exists>p. isCacheKeyForTable table cacheKey = Inl p) \<longleftrightarrow> prefix cacheKey table"
  unfolding isCacheKeyForTable_def using loop_panic_iff[of 0 table cacheKey]
  by (simp add: prefix_nth_iff)

lemma isCacheKeyForTable_true_iff:
  "isCacheKeyForTable table cacheKey = Inr True \<longleftrightarrow> (\<exists>rest. cacheKey = table @ CHR '','' # rest)"
proof -
  have "(length table < length cacheKey \<and>
    (\<forall>j. j < length table \<longrightarrow> table ! j = cacheKey ! j) \<and>
    cacheKey ! length table = CHR '','') \<longleftrightarrow> (\<exists>rest. cacheKey = table @ CHR '','' # rest)"
    (is "?L \<longleftrightarrow> ?R")
  proof
    assume L: ?L
    then have "take (length table) cacheKey = table"
      by (intro nth_equalityI) auto
    moreover have "drop (length table) cacheKey = CHR '','' # drop (Suc (length table)) cacheKey"
      using L by (metis Cons_nth_drop_Suc)
    ultimately have "cacheKey = table @ CHR '','' # drop (Suc (length table)) cacheKey"
      by (metis append_take_drop_id)
    then show ?R by blast
  next
    assume ?R
    then show ?L by (auto simp: nth_append)
  qed
  then show ?thesis
    unfolding isCacheKeyForTable_def using loop_true_iff[of 0 table cacheKey] by simp
qed

lemma isCacheKeyForTable_in_bounds:
  "length table < length cacheKey \<Longrightarrow> \<exists>b. isCacheKeyForTable table cacheKey = Inr b"
proof -
  assume a: "length table < length cacheKey"
  have "\<not> prefix cacheKey table"
    using a by (auto dest: prefix_length_le)
  then have "\<not> (\<exists>p. isCacheKeyForTable table cacheKey = Inl p)"
    by (simp add: isCacheKeyForTable_panic_iff)
  then show ?thesis by (cases "isCacheKeyForTable table cacheKey") auto
qed

text \<open>
  Claim C10. \<open>isCacheKeyForTable\<close> reads \<open>cacheKey[len(table)]\<close> with no bounds
  check. All its reads are in bounds when \<open>len(cacheKey) > len(table)\<close>; it runs out of
  bounds exactly when the cache key is a prefix of the table name, so for every length
  that is not above \<open>len(table)\<close> some cache key of that length is read out of bounds;
  and for a cache key equal to the table name it is the final read, at index
  \<open>len(table)\<close>, that is out of bounds.
\<close>

theorem isCacheKeyForTable_bounds:
  "(length table < length cacheKey \<longrightarrow> (\<exists>b. isCacheKeyForTable table cacheKey = Inr b)) \<and>
   ((\<exists>p. isCacheKeyForTable table cacheKey = Inl p) \<longleftrightarrow> prefix cacheKey table) \<and>
   (n \<le> length table \<longrightarrow> (\<exists>p. isCacheKeyForTable table (take n table) = Inl p)) \<and>
   isCacheKeyForTable table table = Inl (IndexOutOfRange (length table) (length table))"
proof (intro conjI impI)
  assume "length table < length cacheKey"
  then show "\<exists>b. isCacheKeyForTable table cacheKey = Inr b"
    by (rule isCacheKeyForTable_in_bounds)
next
  show "(\<exists>p. isCacheKeyForTable table cacheKey = Inl p) \<longleftrightarrow> prefix cacheKey table"
    by (rule isCacheKeyForTable_panic_iff)
next
  show "\<exists>p. isCacheKeyForTable table (take n table) = Inl p"
    by (simp add: isCacheKeyForTable_panic_iff take_is_prefix)
next
  show "isCacheKeyForTable table table = Inl (IndexOutOfRange (length table) (length table))"
    unfolding isCacheKeyForTable_def by (rule loop_self) simp_all
qed

theorem isCacheKeyForTable_bounds_witness:
  "length ''foo'' < length ''foo,a,1'' \<and>
   isCacheKeyForTable ''foo'' ''foo,a,1'' = Inr True \<and>
   isCacheKeyForTable ''foo'' ''foo'' = Inl (IndexOutOfRange 3 3) \<and>
   isCacheKeyForTable ''foobar'' ''foo'' = Inl (IndexOutOfRange 3 3) \<and>
   isCacheKeyForTable ''foo'' ''bar'' = Inr False"
  using isCacheKeyForTable_bounds [of "''foo''" "''foo,a,1''" 3]
  by (simp add: isCacheKeyForTable_def isCacheKeyForTable_loop.simps index_def)

lemma first_separator_unique:
  "c \<notin> set xs \<Longrightarrow> c \<notin> set xs' \<Longrightarrow> xs @ c # ys = xs' @ c # ys' \<Longrightarrow> xs = xs'"
proof (induction xs arbitrary: xs')
  case Nil
  then show ?case by (cases xs') auto
next
  case (Cons x xs)
  then show ?case by (cases xs') auto
qed

lemma isCacheKeyForTable_other_table:
  assumes "CHR '','' \<notin> set table" "CHR '','' \<notin> set table'"
  shows "isCacheKeyForTable table (table' @ CHR '','' # rest) = Inr (table = table')"
proof -
  let ?c = "table' @ CHR '','' # rest"
  have np: "\<not> prefix ?c table"
  proof
    assume "prefix ?c table"
    then obtain zs where "table = ?c @ zs" by (auto simp: prefix_def)
    then have "CHR '','' \<in> set table" by simp
    with assms(1) show False by simp
  qed
  have t: "isCacheKeyForTable table ?c = Inr True \<longleftrightarrow> table = table'"
  proof
    assume "isCacheKeyForTable table ?c = Inr True"
    then obtain rest' where "table' @ CHR '','' # rest = table @ CHR '','' # rest'"
      by (auto simp: isCacheKeyForTable_true_iff)
    then have "table' = table"
      by (rule first_separator_unique[OF assms(2) assms(1)])
    then show "table = table'" by simp
  next
    assume "table = table'"
    then show "isCacheKeyForTable table ?c = Inr True"
      by (auto simp: isCacheKeyForTable_true_iff)
  qed
  from np have "\<not> (\<exists>p. isCacheKeyForTable table ?c = Inl p)"
    by (simp add: isCacheKeyForTable_panic_iff)
  then obtain b where b: "isCacheKeyForTable table ?c = Inr b"
    by (cases "isCacheKeyForTable table ?c") auto
  with t show ?thesis by (cases b) auto
qed

lemma getRegion_accepts:
  assumes "table \<noteq> metaTableName" "getRegion cmp regions table key = Inr (Ref a region)"
  shows "\<exists>rest. get cmp regions (createRegionSearchKey table key) =
                  Some (table @ CHR '','' # rest, Ref a region) \<and>
         (StopKey region = [] \<or> bytes_Compare key (StopKey region) < 0)"
proof -
  from assms obtain region_key where
    g: "get cmp regions (createRegionSearchKey table key) = Some (region_key, Ref a region)"
    and t: "isCacheKeyForTable table region_key = Inr True"
    and s: "\<not> (length (StopKey region) \<noteq> 0 \<and> 0 \<le> bytes_Compare key (StopKey region))"
    by (auto simp: getRegion_def split: option.splits ptr.splits sum.splits bool.splits if_splits)
  from t obtain rest where "region_key = table @ CHR '','' # rest"
    by (auto simp: isCacheKeyForTable_true_iff)
  with g s show ?thesis by auto
qed

text \<open>
  Claim C7. A region found by the lookup in the tree is accepted by \<open>getRegion\<close> only if its
  index key is the requested table name followed by the separator \<open>,\<close>. A key of
  table \<open>foo\<close> is rejected for a request on table \<open>foobar\<close>, and more generally (table
  names hold no separator byte) a key of any other table is rejected, in particular
  when one of the two names is a prefix of the other.
\<close>

theorem getRegion_table_separator:
  "(table \<noteq> metaTableName \<and> getRegion cmp regions table key = Inr (Ref a region) \<longrightarrow>
      (\<exists>rest. get cmp regions (createRegionSearchKey table key) =
                 Some (table @ '','' @ rest, Ref a region))) \<and>
   (get cmp regions (createRegionSearchKey ''foobar'' key) = Some (''foo,'' @ rest, r) \<longrightarrow>
      getRegion cmp regions ''foobar'' key = Inr Null) \<and>
   (table \<noteq> metaTableName \<and> table \<noteq> table' \<and>
    CHR '','' \<notin> set table \<and> CHR '','' \<notin> set table' \<and>
    get cmp regions (createRegionSearchKey table key) = Some (table' @ '','' @ rest, r) \<longrightarrow>
      getRegion cmp regions table key = Inr Null)"
proof (intro conjI impI)
  assume "table \<noteq> metaTableName \<and> getRegion cmp regions table key = Inr (Ref a region)"
  then show "\<exists>rest. get cmp regions (createRegionSearchKey table key) =
                 Some (table @ '','' @ rest, Ref a region)"
    using getRegion_accepts[of table cmp regions key a region] by auto
next
  assume g: "get cmp regions (createRegionSearchKey ''foobar'' key) = Some (''foo,'' @ rest, r)"
  have "isCacheKeyForTable ''foobar'' (''foo'' @ CHR '','' # rest) = Inr (''foobar'' = ''foo'')"
    by (rule isCacheKeyForTable_other_table) simp_all
  then have "isCacheKeyForTable ''foobar'' (''foo,'' @ rest) = Inr False" by simp
  with g show "getRegion cmp regions ''foobar'' key = Inr Null"
    by (cases r) (simp_all add: getRegion_def metaTableName_def)
next
  assume a: "table \<noteq> metaTableName \<and> table \<noteq> table' \<and>
    CHR '','' \<notin> set table \<and> CHR '','' \<notin> set table' \<and>
    get cmp regions (createRegionSearchKey table key) = Some (table' @ '','' @ rest, r)"
  then have "isCacheKeyForTable table (table' @ CHR '','' # rest) = Inr False"
    using isCacheKeyForTable_other_table[of table table' rest] by simp
  with a show "getRegion cmp regions table key = Inr Null"
    by (cases r) (simp_all add: getRegion_def)
qed

lemma getRegion_for_table:
  assumes "table \<noteq> metaTableName"
    and "get cmp regions (createRegionSearchKey table key) = Some (table @ CHR '','' # rest, Ref a region)"
  shows "getRegion cmp regions table key =
           (if StopKey region = [] \<or> bytes_Compare key (StopKey region) < 0
            then Inr (Ref a region) else Inr Null)"
proof -
  have "isCacheKeyForTable table (table @ CHR '','' # rest) = Inr True"
    by (auto simp: isCacheKeyForTable_true_iff)
  with assms show ?thesis by (auto simp: getRegion_def)
qed

text \<open>
  Claim C8. \<open>getRegion\<close> accepts a cached region only if its stop key is empty or the
  requested key is strictly below the stop key in the byte-wise lexicographic order;
  and a region found under a key of the requested table is accepted exactly on that
  condition, so a region with stop key \<open>m\<close> rejects the key \<open>m\<close> and accepts every key
  below it, and a region with an empty stop key accepts every key.
\<close>

theorem getRegion_stop_key:
  "(table \<noteq> metaTableName \<and> getRegion cmp regions table key = Inr (Ref a region) \<longrightarrow>
      StopKey region = [] \<or> (key, StopKey region) \<in> lexord byte_less) \<and>
   (table \<noteq> metaTableName \<and>
    get cmp regions (createRegionSearchKey table key) = Some (table @ '','' @ rest, Ref a region) \<longrightarrow>
      getRegion cmp regions table key =
        (if StopKey region = [] \<or> (key, StopKey region) \<in> lexord byte_less
         then Inr (Ref a region) else Inr Null))"
proof (intro conjI impI)
  assume "table \<noteq> metaTableName \<and> getRegion cmp regions table key = Inr (Ref a region)"
  then show "StopKey region = [] \<or> (key, StopKey region) \<in> lexord byte_less"
    using getRegion_accepts[of table cmp regions key a region]
    by (auto simp: bytes_Compare_less_iff)
next
  assume "table \<noteq> metaTableName \<and>
    get cmp regions (createRegionSearchKey table key) = Some (table @ '','' @ rest, Ref a region)"
  then show "getRegion cmp regions table key =
        (if StopKey region = [] \<or> (key, StopKey region) \<in> lexord byte_less
         then Inr (Ref a region) else Inr Null)"
    using getRegion_for_table[of table cmp regions key rest a region]
    by (simp add: bytes_Compare_less_iff)
qed

theorem getRegion_stop_key_witness:
  "getRegion bytes_Compare
     [(''t,d,1'', Ref 1 \<lparr>Table = ''t'', RegionName = ''t,d,1'', StopKey = ''m''\<rparr>),
      (''t,e,1'', Ref 2 \<lparr>Table = ''t'', RegionName = ''t,e,1'', StopKey = ''m''\<rparr>)] ''t'' ''m''
     = Inr Null \<and>
   getRegion bytes_Compare
     [(''t,d,1'', Ref 1 \<lparr>Table = ''t'', RegionName = ''t,d,1'', StopKey = ''m''\<rparr>),
      (''t,e,1'', Ref 2 \<lparr>Table = ''t'', RegionName = ''t,e,1'', StopKey = ''m''\<rparr>)] ''t'' ''lzzz''
     = Inr (Ref 1 \<lparr>Table = ''t'', RegionName = ''t,d,1'', StopKey = ''m''\<rparr>) \<and>
   getRegion bytes_Compare
     [(''t,m,1'', Ref 3 \<lparr>Table = ''t'', RegionName = ''t,m,1'', StopKey = []\<rparr>)] ''t'' ''a''
     = Inr (Ref 3 \<lparr>Table = ''t'', RegionName = ''t,m,1'', StopKey = []\<rparr>)"
  using getRegion_stop_key [of "''t''" bytes_Compare
      "[(''t,d,1'', Ref 1 \<lparr>Table = ''t'', RegionName = ''t,d,1'', StopKey = ''m''\<rparr>),
      (''t,e,1'', Ref 2 \<lparr>Table = ''t'', RegionName = ''t,e,1'', StopKey = ''m''\<rparr>)]"
      "''m''" 1 "\<lparr>Table = ''t'', RegionName = ''t,d,1'', StopKey = ''m''\<rparr>" "''d,1''"]
    getRegion_stop_key [of "''t''" bytes_Compare
      "[(''t,d,1'', Ref 1 \<lparr>Table = ''t'', RegionName = ''t,d,1'', StopKey = ''m''\<rparr>),
      (''t,e,1'', Ref 2 \<lparr>Table = ''t'', RegionName = ''t,e,1'', StopKey = ''m''\<rparr>)]"
      "''lzzz''" 1 "\<lparr>Table = ''t'', RegionName = ''t,d,1'', StopKey = ''m''\<rparr>" "''d,1''"]
    getRegion_stop_key [of "''t''" bytes_Compare
      "[(''t,m,1'', Ref 3 \<lparr>Table = ''t'', RegionName = ''t,m,1'', StopKey = []\<rparr>)]"
      "''a''" 3 "\<lparr>Table = ''t'', RegionName = ''t,m,1'', StopKey = []\<rparr>" "''m,1''"]
  by (simp add: getRegion_def metaTableName_def createRegionSearchKey_def get_def Seek_def
      Prev_def step_back_def Last_def Len_def byte_less_def)

theorem getRegion_table_separator_witness:
  "getRegion bytes_Compare
     [(''foo,,1'', Ref 1 \<lparr>Table = ''foo'', RegionName = ''foo,,1'', StopKey = []\<rparr>),
      (''foo,m,1'', Ref 2 \<lparr>Table = ''foo'', RegionName = ''foo,m,1'', StopKey = []\<rparr>)] ''foobar'' ''k''
     = Inr Null \<and>
   getRegion bytes_Compare
     [(''foobar,,1'', Ref 4 \<lparr>Table = ''foobar'', RegionName = ''foobar,,1'', StopKey = []\<rparr>)] ''foo'' ''k''
     = Inr Null \<and>
   getRegion bytes_Compare
     [(''foo,,1'', Ref 1 \<lparr>Table = ''foo'', RegionName = ''foo,,1'', StopKey = []\<rparr>),
      (''foo,m,1'', Ref 2 \<lparr>Table = ''foo'', RegionName = ''foo,m,1'', StopKey = []\<rparr>)] ''foo'' ''z''
     = Inr (Ref 1 \<lparr>Table = ''foo'', RegionName = ''foo,,1'', StopKey = []\<rparr>)"
  using getRegion_table_separator [of "''foo''" bytes_Compare
      "[(''foo,,1'', Ref 1 \<lparr>Table = ''foo'', RegionName = ''foo,,1'', StopKey = []\<rparr>),
      (''foo,m,1'', Ref 2 \<lparr>Table = ''foo'', RegionName = ''foo,m,1'', StopKey = []\<rparr>)]"
      "''z''" 1 "\<lparr>Table = ''foo'', RegionName = ''foo,,1'', StopKey = []\<rparr>"]
    getRegion_table_separator [of "''foo''" bytes_Compare
      "[(''foobar,,1'', Ref 4 \<lparr>Table = ''foobar'', RegionName = ''foobar,,1'', StopKey = []\<rparr>)]"
      "''k''" 1 "\<lparr>Table = ''foo'', RegionName = ''foo,,1'', StopKey = []\<rparr>" "'',1''"
      "Ref 4 \<lparr>Table = ''foobar'', RegionName = ''foobar,,1'', StopKey = []\<rparr>" "''foobar''"]
    getRegion_table_separator [of "''foobar''" bytes_Compare
      "[(''foo,,1'', Ref 1 \<lparr>Table = ''foo'', RegionName = ''foo,,1'', StopKey = []\<rparr>),
      (''foo,m,1'', Ref 2 \<lparr>Table = ''foo'', RegionName = ''foo,m,1'', StopKey = []\<rparr>)]"
      "''k''" 1 "\<lparr>Table = ''foo'', RegionName = ''foo,,1'', StopKey = []\<rparr>" "'',1''"
      "Ref 1 \<lparr>Table = ''foo'', RegionName = ''foo,,1'', StopKey = []\<rparr>" "''foo''"]
  by (simp add: getRegion_def metaTableName_def createRegionSearchKey_def get_def Seek_def
      Prev_def step_back_def Last_def Len_def isCacheKeyForTable_def
      isCacheKeyForTable_loop.simps index_def)

section \<open>The order of publication\<close>

lemma get_in_set: "get cmp t key = Some kv \<Longrightarrow> kv \<in> set t"
  using seek_index_le[of cmp t key]
  by (auto simp: get_eq Let_def last_in_set split: if_splits)

lemma publish_client_inv:
  "index_has_client c \<Longrightarrow> index_has_client (publish_client c reg client)"
  by (auto simp: index_has_client_def publish_client_def regionClientCache_put_def)

lemma publish_region_inv:
  assumes "index_has_client c" "c_clients c reg \<noteq> None" "publish_region env c reg = (res, c')"
  shows "index_has_client c' \<and> c_clients c' = c_clients c"
proof (cases reg)
  case Null
  with assms show ?thesis by (simp add: publish_region_def)
next
  case (Ref a info)
  with assms(3) have c': "c' = c\<lparr>c_regions := snd (Put (CompareGeneric env) (c_regions c) (RegionName info) reg)\<rparr>"
    by (auto simp: publish_region_def put_def)
  have "set (c_regions c') \<subseteq> insert (RegionName info, reg) (set (c_regions c))"
    unfolding c' using Put_set[of "CompareGeneric env" "c_regions c" "RegionName info" reg] by simp
  with assms(1,2) c' show ?thesis
    by (auto simp: index_has_client_def)
qed

lemma publish_step_inv:
  assumes "publish_step env s s'" "sys_inv s"
  shows "sys_inv s'"
  using assms
proof (induction rule: publish_step.induct)
  case (clients_put i ts c)
  have a: "index_has_client (publish_client c (t_reg (ts ! i)) (t_client (ts ! i)))"
    using clients_put.prems by (simp add: sys_inv_def publish_client_inv)
  have b: "\<forall>t \<in> set (ts[i := (ts ! i)\<lparr>t_pc := BeforeRegionsPut\<rparr>]). t_pc t = BeforeRegionsPut \<longrightarrow>
      c_clients (publish_client c (t_reg (ts ! i)) (t_client (ts ! i))) (t_reg t) \<noteq> None"
  proof
    fix t assume "t \<in> set (ts[i := (ts ! i)\<lparr>t_pc := BeforeRegionsPut\<rparr>])"
    then have "t = (ts ! i)\<lparr>t_pc := BeforeRegionsPut\<rparr> \<or> t \<in> set ts"
      using set_update_subset_insert[of ts i] by auto
    then show "t_pc t = BeforeRegionsPut \<longrightarrow>
      c_clients (publish_client c (t_reg (ts ! i)) (t_client (ts ! i))) (t_reg t) \<noteq> None"
      using clients_put.prems
      by (auto simp: sys_inv_def publish_client_def regionClientCache_put_def)
  qed
  from a b show ?case by (simp add: sys_inv_def)
next
  case (regions_put i ts c c')
  have "ts ! i \<in> set ts" using regions_put.hyps(1) by simp
  then have has: "c_clients c (t_reg (ts ! i)) \<noteq> None"
    using regions_put.prems regions_put.hyps(2) by (auto simp: sys_inv_def)
  have r: "index_has_client c' \<and> c_clients c' = c_clients c"
    using publish_region_inv[OF _ has regions_put.hyps(3)] regions_put.prems
    by (simp add: sys_inv_def)
  have "\<forall>t \<in> set (ts[i := (ts ! i)\<lparr>t_pc := Finished\<rparr>]). t_pc t = BeforeRegionsPut \<longrightarrow>
      c_clients c' (t_reg t) \<noteq> None"
  proof
    fix t assume "t \<in> set (ts[i := (ts ! i)\<lparr>t_pc := Finished\<rparr>])"
    then have "t = (ts ! i)\<lparr>t_pc := Finished\<rparr> \<or> t \<in> set ts"
      using set_update_subset_insert[of ts i] by auto
    then show "t_pc t = BeforeRegionsPut \<longrightarrow> c_clients c' (t_reg t) \<noteq> None"
      using regions_put.prems r by (auto simp: sys_inv_def)
  qed
  with r show ?case by (simp add: sys_inv_def)
next
  case (regions_put_panic i ts c p c')
  have "ts ! i \<in> set ts" using regions_put_panic.hyps(1) by simp
  then have has: "c_clients c (t_reg (ts ! i)) \<noteq> None"
    using regions_put_panic.prems regions_put_panic.hyps(2) by (auto simp: sys_inv_def)
  have r: "index_has_client c' \<and> c_clients c' = c_clients c"
    using publish_region_inv[OF _ has regions_put_panic.hyps(3)] regions_put_panic.prems
    by (simp add: sys_inv_def)
  have "\<forall>t \<in> set (ts[i := (ts ! i)\<lparr>t_pc := Panicked\<rparr>]). t_pc t = BeforeRegionsPut \<longrightarrow>
      c_clients c' (t_reg t) \<noteq> None"
  proof
    fix t assume "t \<in> set (ts[i := (ts ! i)\<lparr>t_pc := Panicked\<rparr>])"
    then have "t = (ts ! i)\<lparr>t_pc := Panicked\<rparr> \<or> t \<in> set ts"
      using set_update_subset_insert[of ts i] by auto
    then show "t_pc t = BeforeRegionsPut \<longrightarrow> c_clients c' (t_reg t) \<noteq> None"
      using regions_put_panic.prems r by (auto simp: sys_inv_def)
  qed
  with r show ?case by (simp add: sys_inv_def)
qed

lemma publish_steps_inv:
  assumes "(publish_step env)\<^sup>*\<^sup>* s s'" "sys_inv s"
  shows "sys_inv s'"
  using assms by (induction rule: rtranclp_induct) (auto intro: publish_step_inv)

lemma index_has_client_lookup:
  assumes "index_has_client c" "table \<noteq> metaTableName"
    and "getRegion cmp (c_regions c) table key = Inr (Ref a region)"
  shows "\<exists>client. regionClientCache_get (c_clients c) (Ref a region) = Some client"
proof -
  from getRegion_accepts[OF assms(2,3)] obtain rest where
    "get cmp (c_regions c) (createRegionSearchKey table key) = Some (table @ CHR '','' # rest, Ref a region)"
    by blast
  then have "(table @ CHR '','' # rest, Ref a region) \<in> set (c_regions c)"
    by (rule get_in_set)
  with assms(1) show ?thesis
    by (auto simp: index_has_client_def regionClientCache_get_def)
qed

text \<open>
  Claim C3. \<open>addRegionToCache\<close> puts the region-to-client entry into the map before
  it puts the region into the tree: after the first step the entry is there and the
  tree is unchanged. In every state that threads publishing concurrently can reach,
  step by step, from a consistent state, every region of the tree has its entry in the
  map, so a region that \<open>getRegion\<close> finds in the tree has a client.
\<close>

theorem addRegionToCache_publication_order:
  "(addRegionToCache env c reg client = publish_region env (publish_client c reg client) reg \<and>
    regionClientCache_get (c_clients (publish_client c reg client)) reg = Some client \<and>
    c_regions (publish_client c reg client) = c_regions c) \<and>
   (index_has_client c0 \<and> (\<forall>t \<in> set ts0. t_pc t = BeforeClientsPut) \<and>
    (publish_step env)\<^sup>*\<^sup>* (c0, ts0) (c1, ts1) \<longrightarrow>
      index_has_client c1 \<and>
      (\<forall>table key a region.
         table \<noteq> metaTableName \<and>
         getRegion (CompareGeneric env) (c_regions c1) table key = Inr (Ref a region) \<longrightarrow>
         (\<exists>cl. regionClientCache_get (c_clients c1) (Ref a region) = Some cl)))"
proof (intro conjI impI allI)
  show "addRegionToCache env c reg client = publish_region env (publish_client c reg client) reg"
    by (simp add: addRegionToCache_def)
  show "regionClientCache_get (c_clients (publish_client c reg client)) reg = Some client"
    by (simp add: publish_client_def regionClientCache_put_def regionClientCache_get_def)
  show "c_regions (publish_client c reg client) = c_regions c"
    by (simp add: publish_client_def)
next
  assume a: "index_has_client c0 \<and> (\<forall>t \<in> set ts0. t_pc t = BeforeClientsPut) \<and>
    (publish_step env)\<^sup>*\<^sup>* (c0, ts0) (c1, ts1)"
  then have "sys_inv (c0, ts0)" by (auto simp: sys_inv_def)
  with a have "sys_inv (c1, ts1)" using publish_steps_inv by blast
  then show inv: "index_has_client c1" by (simp add: sys_inv_def)
  fix table key a region
  assume "table \<noteq> metaTableName \<and>
         getRegion (CompareGeneric env) (c_regions c1) table key = Inr (Ref a region)"
  with inv show "\<exists>cl. regionClientCache_get (c_clients c1) (Ref a region) = Some cl"
    using index_has_client_lookup by blast
qed

theorem addRegionToCache_publication_order_witness:
  "index_has_client
     (snd (addRegionToCache
        \<lparr>CompareGeneric = bytes_Compare, InfoFromCell = (\<lambda>cell. Inl TableNotFound),
         newRegion = (\<lambda>host port. Inl TableNotFound)\<rparr>
        \<lparr>c_regions = [], c_clients = Map.empty, c_metaClient = None, c_zkquorum = ''zk''\<rparr>
        (Ref 1 \<lparr>Table = ''t'', RegionName = ''t,m,1'', StopKey = []\<rparr>) 5)) \<and>
   c_regions
     (snd (addRegionToCache
        \<lparr>CompareGeneric = bytes_Compare, InfoFromCell = (\<lambda>cell. Inl TableNotFound),
         newRegion = (\<lambda>host port. Inl TableNotFound)\<rparr>
        \<lparr>c_regions = [], c_clients = Map.empty, c_metaClient = None, c_zkquorum = ''zk''\<rparr>
        (Ref 1 \<lparr>Table = ''t'', RegionName = ''t,m,1'', StopKey = []\<rparr>) 5))
     = [(''t,m,1'', Ref 1 \<lparr>Table = ''t'', RegionName = ''t,m,1'', StopKey = []\<rparr>)] \<and>
   c_regions
     (publish_client
        \<lparr>c_regions = [], c_clients = Map.empty, c_metaClient = None, c_zkquorum = ''zk''\<rparr>
        (Ref 1 \<lparr>Table = ''t'', RegionName = ''t,m,1'', StopKey = []\<rparr>) 5) = [] \<and>
   getRegion bytes_Compare
     (c_regions (snd (addRegionToCache
        \<lparr>CompareGeneric = bytes_Compare, InfoFromCell = (\<lambda>cell. Inl TableNotFound),
         newRegion = (\<lambda>host port. Inl TableNotFound)\<rparr>
        \<lparr>c_regions = [], c_clients = Map.empty, c_metaClient = None, c_zkquorum = ''zk''\<rparr>
        (Ref 1 \<lparr>Table = ''t'', RegionName = ''t,m,1'', StopKey = []\<rparr>) 5))) ''t'' ''a''
     = Inr (Ref 1 \<lparr>Table = ''t'', RegionName = ''t,m,1'', StopKey = []\<rparr>) \<and>
   regionClientCache_get
     (c_clients (snd (addRegionToCache
        \<lparr>CompareGeneric = bytes_Compare, InfoFromCell = (\<lambda>cell. Inl TableNotFound),
         newRegion = (\<lambda>host port. Inl TableNotFound)\<rparr>
        \<lparr>c_regions = [], c_clients = Map.empty, c_metaClient = None, c_zkquorum = ''zk''\<rparr>
        (Ref 1 \<lparr>Table = ''t'', RegionName = ''t,m,1'', StopKey = []\<rparr>) 5)))
     (Ref 1 \<lparr>Table = ''t'', RegionName = ''t,m,1'', StopKey = []\<rparr>) = Some 5"
proof -
  let ?E = "\<lparr>CompareGeneric = bytes_Compare, InfoFromCell = (\<lambda>cell. Inl TableNotFound),
         newRegion = (\<lambda>host port. Inl TableNotFound)\<rparr>"
  let ?C0 = "\<lparr>c_regions = [], c_clients = Map.empty, c_metaClient = None, c_zkquorum = ''zk''\<rparr>"
  let ?R = "Ref 1 \<lparr>Table = ''t'', RegionName = ''t,m,1'', StopKey = []\<rparr>"
  let ?T0 = "[\<lparr>t_reg = ?R, t_client = 5, t_pc = BeforeClientsPut\<rparr>]"
  let ?T1 = "[\<lparr>t_reg = ?R, t_client = 5, t_pc = BeforeRegionsPut\<rparr>]"
  let ?T2 = "[\<lparr>t_reg = ?R, t_client = 5, t_pc = Finished\<rparr>]"
  let ?C1 = "publish_client ?C0 ?R 5"
  let ?C2 = "snd (addRegionToCache ?E ?C0 ?R 5)"
  have s1: "publish_step ?E (?C0, ?T0) (?C1, ?T1)"
    using publish_step.clients_put[of 0 ?T0 ?E ?C0] by simp
  have "publish_region ?E ?C1 ?R = (Inr (), ?C2)"
    by (simp add: addRegionToCache_def publish_region_def)
  then have s2: "publish_step ?E (?C1, ?T1) (?C2, ?T2)"
    using publish_step.regions_put[of 0 ?T1 ?E ?C1 ?C2] by simp
  from s1 s2 have reach: "(publish_step ?E)\<^sup>*\<^sup>* (?C0, ?T0) (?C2, ?T2)"
    by (meson rtranclp.rtrancl_into_rtrancl r_into_rtranclp)
  have i0: "index_has_client ?C0" by (simp add: index_has_client_def)
  have p0: "\<forall>t \<in> set ?T0. t_pc t = BeforeClientsPut" by simp
  have g: "getRegion bytes_Compare (c_regions ?C2) ''t'' ''a'' = Inr ?R"
    by (simp add: addRegionToCache_def publish_region_def publish_client_def put_def
        getRegion_def metaTableName_def createRegionSearchKey_def get_def Seek_def Prev_def step_back_def
        Last_def Len_def isCacheKeyForTable_def isCacheKeyForTable_loop.simps index_def)
  show ?thesis
    using addRegionToCache_publication_order [of ?E ?C0 ?R 5 ?C0 ?T0 ?C2 ?T2] i0 p0 reach g
    by (simp add: addRegionToCache_def publish_region_def publish_client_def put_def
        regionClientCache_get_def regionClientCache_put_def)
qed

section \<open>Rows of the meta table\<close>

lemma IndexByte_notin: "c \<notin> set v \<Longrightarrow> IndexByte v c = - 1"
  by (induction v) auto

lemma IndexByte_in: "c \<in> set v \<Longrightarrow> IndexByte v c = int (length (takeWhile (\<lambda>x. x \<noteq> c) v))"
  by (induction v) (auto simp: Let_def)

lemma IndexByte_less_1: "IndexByte v c < 1 \<longleftrightarrow> c \<notin> set v \<or> hd v = c"
proof (cases "c \<in> set v")
  case False
  then show ?thesis by (simp add: IndexByte_notin)
next
  case True
  then show ?thesis by (cases v) (auto simp: IndexByte_in)
qed

lemma drop_after_IndexByte:
  "c \<in> set v \<Longrightarrow> drop (Suc (nat (IndexByte v c))) v = tl (dropWhile (\<lambda>x. x \<noteq> c) v)"
  by (simp add: IndexByte_in dropWhile_eq_drop drop_Suc tl_drop)

lemma foldl_decimal_ge: "n \<le> foldl (\<lambda>n c. n * 10 + digit_val c) n s"
proof (induction s arbitrary: n)
  case Nil
  then show ?case by simp
next
  case (Cons c s)
  have "n \<le> n * 10 + digit_val c" by simp
  also have "\<dots> \<le> foldl (\<lambda>n c. n * 10 + digit_val c) (n * 10 + digit_val c) s"
    by (rule Cons.IH)
  finally show ?case by simp
qed

lemma ParseUint_loop_Inr_iff:
  "n < 2 ^ 16 \<Longrightarrow>
   ParseUint_loop n s = Inr m \<longleftrightarrow>
     list_all is_digit s \<and>
     foldl (\<lambda>n c. n * 10 + digit_val c) n s < 2 ^ 16 \<and>
     m = foldl (\<lambda>n c. n * 10 + digit_val c) n s"
proof (induction s arbitrary: n)
  case Nil
  then show ?case by auto
next
  case (Cons c s)
  let ?n1 = "n * 10 + digit_val c"
  show ?case
  proof (cases "is_digit c")
    case False
    then show ?thesis by simp
  next
    case dig: True
    have small: "\<not> (2 ^ 64 div 10 + 1 \<le> n)" using Cons.prems by simp
    show ?thesis
    proof (cases "?n1 < 2 ^ 16")
      case True
      from Cons.IH[OF True] dig small True show ?thesis
        by (simp add: Let_def)
    next
      case False
      have "?n1 \<le> foldl (\<lambda>n c. n * 10 + digit_val c) ?n1 s"
        by (rule foldl_decimal_ge)
      with False have "\<not> foldl (\<lambda>n c. n * 10 + digit_val c) ?n1 s < 2 ^ 16"
        by linarith
      with dig small False show ?thesis
        by (simp add: Let_def)
    qed
  qed
qed

lemma ParseUint_Inr_iff: "ParseUint_10_16 s = Inr m \<longleftrightarrow> is_port s \<and> m = decimal_value s"
  using ParseUint_loop_Inr_iff[of 0 s m]
  by (auto simp: ParseUint_10_16_def is_port_def decimal_value_def)

lemma server_malformed_rejected:
  assumes "v \<noteq> []" "server_malformed v"
  shows "IndexByte v CHR '':'' < 1 \<or>
         (\<exists>e. ParseUint_10_16 (drop (nat (IndexByte v CHR '':'') + 1) v) = Inl e)"
proof (cases "CHR '':'' \<notin> set v \<or> hd v = CHR '':''")
  case True
  then show ?thesis by (simp add: IndexByte_less_1)
next
  case False
  then have in_v: "CHR '':'' \<in> set v" by simp
  from False assms(2) have "\<not> is_port (tl (dropWhile (\<lambda>c. c \<noteq> CHR '':'') v))"
    by (auto simp: server_malformed_def)
  then have "\<not> is_port (drop (nat (IndexByte v CHR '':'') + 1) v)"
    by (simp add: drop_after_IndexByte[OF in_v])
  then have "\<forall>m. ParseUint_10_16 (drop (nat (IndexByte v CHR '':'') + 1) v) \<noteq> Inr m"
    by (simp add: ParseUint_Inr_iff)
  then show ?thesis
    by (cases "ParseUint_10_16 (drop (nat (IndexByte v CHR '':'') + 1) v)") auto
qed

lemma cells_malformed_server:
  assumes "cell \<in> set cells" "Qualifier cell = ''server''" "Value cell \<noteq> []"
    "server_malformed (Value cell)"
  shows "\<exists>err. discoverRegion_cells env cells (host, port, reg) = Inl err"
  using assms(1)
proof (induction cells arbitrary: host port reg)
  case Nil
  then show ?case by simp
next
  case (Cons x cells)
  show ?case
  proof (cases "x = cell")
    case True
    with server_malformed_rejected[OF assms(3,4)] assms(2,3) show ?thesis
      by (auto simp: Let_def split: sum.splits)
  next
    case False
    with Cons.prems have "cell \<in> set cells" by simp
    from Cons.IH[OF this] show ?thesis
      by (auto simp: Let_def split: sum.splits)
  qed
qed

lemma discoverRegion_error_keeps_caches:
  "fst (discoverRegion env c metaRow) = Inr (Inl err) \<Longrightarrow> snd (discoverRegion env c metaRow) = c"
  by (auto simp: discoverRegion_def split: option.splits sum.splits prod.splits)

lemma cells_empty_servers:
  assumes "\<forall>cell \<in> set cells. Qualifier cell = ''server'' \<longrightarrow> Value cell = []"
  shows "(discoverRegion_cells env cells (host, port, reg) = Inl err \<longrightarrow>
            (\<exists>cell \<in> set cells. Qualifier cell = ''regioninfo'' \<and> InfoFromCell env cell = Inl err)) \<and>
         (discoverRegion_cells env cells (host, port, reg) = Inr (host', port', reg') \<longrightarrow>
            host' = host \<and> port' = port)"
  using assms
proof (induction cells arbitrary: reg)
  case Nil
  then show ?case by simp
next
  case (Cons x cells)
  then have rest: "\<forall>cell \<in> set cells. Qualifier cell = ''server'' \<longrightarrow> Value cell = []"
    by simp
  from Cons.prems have x: "Qualifier x = ''server'' \<longrightarrow> Value x = []" by simp
  show ?case
  proof (cases "Qualifier x = ''regioninfo''")
    case True
    show ?thesis
    proof (cases "InfoFromCell env x")
      case (Inl e)
      with True show ?thesis by auto
    next
      case (Inr r)
      with True Cons.IH[OF rest, of r] show ?thesis by auto
    qed
  next
    case False
    with x Cons.IH[OF rest, of reg] show ?thesis by (auto simp: Let_def)
  qed
qed

lemma cells_decoded:
  assumes "\<forall>cell \<in> set cells. Qualifier cell = ''server'' \<longrightarrow> Value cell = []"
    and "\<forall>cell \<in> set cells. Qualifier cell = ''regioninfo'' \<longrightarrow>
           (\<exists>a info. InfoFromCell env cell = Inr (Ref a info))"
  shows "\<exists>reg'. discoverRegion_cells env cells (host, port, reg) = Inr (host, port, reg') \<and>
           (if \<exists>cell \<in> set cells. Qualifier cell = ''regioninfo''
            then \<exists>a info. reg' = Ref a info else reg' = reg)"
  using assms
proof (induction cells arbitrary: reg)
  case Nil
  then show ?case by simp
next
  case (Cons x cells)
  then have rest: "\<forall>cell \<in> set cells. Qualifier cell = ''server'' \<longrightarrow> Value cell = []"
    "\<forall>cell \<in> set cells. Qualifier cell = ''regioninfo'' \<longrightarrow>
           (\<exists>a info. InfoFromCell env cell = Inr (Ref a info))"
    by simp_all
  from Cons.prems have x: "Qualifier x = ''server'' \<longrightarrow> Value x = []" by simp
  show ?case
  proof (cases "Qualifier x = ''regioninfo''")
    case True
    with Cons.prems obtain a info where d: "InfoFromCell env x = Inr (Ref a info)" by auto
    from Cons.IH[OF rest, of "Ref a info"] obtain reg' where
      r: "discoverRegion_cells env cells (host, port, Ref a info) = Inr (host, port, reg')"
      and k: "if \<exists>cell \<in> set cells. Qualifier cell = ''regioninfo''
            then \<exists>a info. reg' = Ref a info else reg' = Ref a info"
      by blast
    from k have "\<exists>a info. reg' = Ref a info" by (auto split: if_splits)
    with True d r show ?thesis by auto
  next
    case False
    with x Cons.IH[OF rest, of reg] show ?thesis by (auto simp: Let_def)
  qed
qed

lemma addRegionToCache_Ref:
  "addRegionToCache env c (Ref a info) client =
     (Inr (), (publish_client c (Ref a info) client)
        \<lparr>c_regions := snd (put (CompareGeneric env) (c_regions c) (RegionName info) (Ref a info))\<rparr>)"
  by (simp add: addRegionToCache_def publish_region_def publish_client_def)

lemma empty_server_error_cause:
  assumes a: "Result metaRow = Some cells"
    and es: "\<forall>cell \<in> set cells. Qualifier cell = ''server'' \<longrightarrow> Value cell = []"
    and e: "fst (discoverRegion env c metaRow) = Inr (Inl err)"
  shows "newRegion env [] 0 = Inl err \<or>
        (\<exists>cell \<in> set cells. Qualifier cell = ''regioninfo'' \<and> InfoFromCell env cell = Inl err)"
proof (cases "discoverRegion_cells env cells ([], 0, Null)")
  case (Inl e')
  with a e have "e' = err" by (simp add: discoverRegion_def)
  with Inl cells_empty_servers[OF es, of env "[]" 0 Null err] show ?thesis by simp
next
  case (Inr hpr)
  obtain host port reg where hpr: "hpr = (host, port, reg)" by (cases hpr) auto
  with Inr cells_empty_servers[OF es, of env "[]" 0 Null err host port reg]
  have "host = []" "port = 0" by simp_all
  with Inr hpr a e show ?thesis
    by (auto simp: discoverRegion_def split: sum.splits prod.splits)
qed

text \<open>
  Claim C4, amended. For a row whose \<open>server\<close> cells all have an empty value, the cells
  are skipped and the connection constructor is called with host \<open>""\<close> and port 0.
  \<open>discoverRegion\<close> returns an error only when a \<open>regioninfo\<close> cell fails to decode or
  that constructor call fails, and then the caches are unchanged; when the row has a
  \<open>regioninfo\<close> cell, its cells decode and the constructor succeeds, the connection is
  returned and cached for the decoded region.
\<close>

theorem discoverRegion_empty_server:
  "Result metaRow = Some cells \<and>
   (\<forall>cell \<in> set cells. Qualifier cell = ''server'' \<longrightarrow> Value cell = []) \<longrightarrow>
     (\<forall>err. fst (discoverRegion env c metaRow) = Inr (Inl err) \<longrightarrow>
        snd (discoverRegion env c metaRow) = c \<and>
        (newRegion env [] 0 = Inl err \<or>
         (\<exists>cell \<in> set cells. Qualifier cell = ''regioninfo'' \<and> InfoFromCell env cell = Inl err))) \<and>
     (\<forall>client.
        newRegion env [] 0 = Inr client \<and>
        (\<exists>cell \<in> set cells. Qualifier cell = ''regioninfo'') \<and>
        (\<forall>cell \<in> set cells. Qualifier cell = ''regioninfo'' \<longrightarrow>
           (\<exists>a info. InfoFromCell env cell = Inr (Ref a info))) \<longrightarrow>
        (\<exists>a info.
           fst (discoverRegion env c metaRow) = Inr (Inr (client, Ref a info)) \<and>
           snd (discoverRegion env c metaRow) = snd (addRegionToCache env c (Ref a info) client) \<and>
           c_clients (snd (discoverRegion env c metaRow)) (Ref a info) = Some client))"
proof (intro impI conjI allI)
  fix err
  assume a: "Result metaRow = Some cells \<and>
    (\<forall>cell \<in> set cells. Qualifier cell = ''server'' \<longrightarrow> Value cell = [])"
    and e: "fst (discoverRegion env c metaRow) = Inr (Inl err)"
  from e show "snd (discoverRegion env c metaRow) = c"
    by (rule discoverRegion_error_keeps_caches)
  from a have es: "\<forall>cell \<in> set cells. Qualifier cell = ''server'' \<longrightarrow> Value cell = []" by simp
  show "newRegion env [] 0 = Inl err \<or>
        (\<exists>cell \<in> set cells. Qualifier cell = ''regioninfo'' \<and> InfoFromCell env cell = Inl err)"
  proof -
    from a have r: "Result metaRow = Some cells" by simp
    show ?thesis by (rule empty_server_error_cause[OF r es e])
  qed
next
  fix client
  assume a: "Result metaRow = Some cells \<and>
    (\<forall>cell \<in> set cells. Qualifier cell = ''server'' \<longrightarrow> Value cell = [])"
    and b: "newRegion env [] 0 = Inr client \<and>
        (\<exists>cell \<in> set cells. Qualifier cell = ''regioninfo'') \<and>
        (\<forall>cell \<in> set cells. Qualifier cell = ''regioninfo'' \<longrightarrow>
           (\<exists>a info. InfoFromCell env cell = Inr (Ref a info)))"
  from a have es: "\<forall>cell \<in> set cells. Qualifier cell = ''server'' \<longrightarrow> Value cell = []" by simp
  from b have dec: "\<forall>cell \<in> set cells. Qualifier cell = ''regioninfo'' \<longrightarrow>
           (\<exists>a info. InfoFromCell env cell = Inr (Ref a info))" by simp
  from cells_decoded[OF es dec, of "[]" 0 Null] b obtain a' info where
    r: "discoverRegion_cells env cells ([], 0, Null) = Inr ([], 0, Ref a' info)"
    by auto
  have "fst (discoverRegion env c metaRow) = Inr (Inr (client, Ref a' info)) \<and>
        snd (discoverRegion env c metaRow) = snd (addRegionToCache env c (Ref a' info) client) \<and>
        c_clients (snd (discoverRegion env c metaRow)) (Ref a' info) = Some client"
    using a b r
    by (simp add: discoverRegion_def addRegionToCache_Ref publish_client_def
        regionClientCache_put_def)
  then show "\<exists>a info.
           fst (discoverRegion env c metaRow) = Inr (Inr (client, Ref a info)) \<and>
           snd (discoverRegion env c metaRow) = snd (addRegionToCache env c (Ref a info) client) \<and>
           c_clients (snd (discoverRegion env c metaRow)) (Ref a info) = Some client"
    by blast
qed

theorem discoverRegion_empty_server_counterexample:
  "fst (discoverRegion
     \<lparr>CompareGeneric = bytes_Compare,
      InfoFromCell = (\<lambda>cell. Inr (Ref 1 \<lparr>Table = ''t'', RegionName = ''t,,1'', StopKey = []\<rparr>)),
      newRegion = (\<lambda>host port. if host = [] \<and> port = 0 then Inr 5 else Inl (Foreign 1))\<rparr>
     \<lparr>c_regions = [], c_clients = Map.empty, c_metaClient = Some 9, c_zkquorum = ''zk''\<rparr>
     \<lparr>Result = Some [\<lparr>Qualifier = ''regioninfo'', Value = ''t,,1''\<rparr>,
                     \<lparr>Qualifier = ''server'', Value = []\<rparr>]\<rparr>)
     = Inr (Inr (5, Ref 1 \<lparr>Table = ''t'', RegionName = ''t,,1'', StopKey = []\<rparr>)) \<and>
   c_regions (snd (discoverRegion
     \<lparr>CompareGeneric = bytes_Compare,
      InfoFromCell = (\<lambda>cell. Inr (Ref 1 \<lparr>Table = ''t'', RegionName = ''t,,1'', StopKey = []\<rparr>)),
      newRegion = (\<lambda>host port. if host = [] \<and> port = 0 then Inr 5 else Inl (Foreign 1))\<rparr>
     \<lparr>c_regions = [], c_clients = Map.empty, c_metaClient = Some 9, c_zkquorum = ''zk''\<rparr>
     \<lparr>Result = Some [\<lparr>Qualifier = ''regioninfo'', Value = ''t,,1''\<rparr>,
                     \<lparr>Qualifier = ''server'', Value = []\<rparr>]\<rparr>))
     = [(''t,,1'', Ref 1 \<lparr>Table = ''t'', RegionName = ''t,,1'', StopKey = []\<rparr>)] \<and>
   c_clients (snd (discoverRegion
     \<lparr>CompareGeneric = bytes_Compare,
      InfoFromCell = (\<lambda>cell. Inr (Ref 1 \<lparr>Table = ''t'', RegionName = ''t,,1'', StopKey = []\<rparr>)),
      newRegion = (\<lambda>host port. if host = [] \<and> port = 0 then Inr 5 else Inl (Foreign 1))\<rparr>
     \<lparr>c_regions = [], c_clients = Map.empty, c_metaClient = Some 9, c_zkquorum = ''zk''\<rparr>
     \<lparr>Result = Some [\<lparr>Qualifier = ''regioninfo'', Value = ''t,,1''\<rparr>,
                     \<lparr>Qualifier = ''server'', Value = []\<rparr>]\<rparr>))
     (Ref 1 \<lparr>Table = ''t'', RegionName = ''t,,1'', StopKey = []\<rparr>) = Some 5"
  by (simp add: discoverRegion_def addRegionToCache_def publish_region_def publish_client_def
      regionClientCache_put_def put_def)

theorem discoverRegion_empty_server_witness:
  "discoverRegion
     \<lparr>CompareGeneric = bytes_Compare,
      InfoFromCell = (\<lambda>cell. Inr (Ref 1 \<lparr>Table = ''t'', RegionName = ''t,,1'', StopKey = []\<rparr>)),
      newRegion = (\<lambda>host port. Inl (Foreign 7))\<rparr>
     \<lparr>c_regions = [], c_clients = Map.empty, c_metaClient = Some 9, c_zkquorum = ''zk''\<rparr>
     \<lparr>Result = Some [\<lparr>Qualifier = ''regioninfo'', Value = ''t,,1''\<rparr>,
                     \<lparr>Qualifier = ''server'', Value = []\<rparr>]\<rparr>
     = (Inr (Inl (Foreign 7)),
        \<lparr>c_regions = [], c_clients = Map.empty, c_metaClient = Some 9, c_zkquorum = ''zk''\<rparr>) \<and>
   fst (discoverRegion
     \<lparr>CompareGeneric = bytes_Compare,
      InfoFromCell = (\<lambda>cell. Inr (Ref 1 \<lparr>Table = ''t'', RegionName = ''t,,1'', StopKey = []\<rparr>)),
      newRegion = (\<lambda>host port. Inr 5)\<rparr>
     \<lparr>c_regions = [], c_clients = Map.empty, c_metaClient = Some 9, c_zkquorum = ''zk''\<rparr>
     \<lparr>Result = Some [\<lparr>Qualifier = ''regioninfo'', Value = ''t,,1''\<rparr>,
                     \<lparr>Qualifier = ''server'', Value = []\<rparr>]\<rparr>)
     = Inr (Inr (5, Ref 1 \<lparr>Table = ''t'', RegionName = ''t,,1'', StopKey = []\<rparr>))"
  using discoverRegion_empty_server [of
     "\<lparr>Result = Some [\<lparr>Qualifier = ''regioninfo'', Value = ''t,,1''\<rparr>,
                     \<lparr>Qualifier = ''server'', Value = []\<rparr>]\<rparr>"
     "[\<lparr>Qualifier = ''regioninfo'', Value = ''t,,1''\<rparr>, \<lparr>Qualifier = ''server'', Value = []\<rparr>]"
     "\<lparr>CompareGeneric = bytes_Compare,
      InfoFromCell = (\<lambda>cell. Inr (Ref 1 \<lparr>Table = ''t'', RegionName = ''t,,1'', StopKey = []\<rparr>)),
      newRegion = (\<lambda>host port. Inl (Foreign 7))\<rparr>"
     "\<lparr>c_regions = [], c_clients = Map.empty, c_metaClient = Some 9, c_zkquorum = ''zk''\<rparr>"]
    discoverRegion_empty_server [of
     "\<lparr>Result = Some [\<lparr>Qualifier = ''regioninfo'', Value = ''t,,1''\<rparr>,
                     \<lparr>Qualifier = ''server'', Value = []\<rparr>]\<rparr>"
     "[\<lparr>Qualifier = ''regioninfo'', Value = ''t,,1''\<rparr>, \<lparr>Qualifier = ''server'', Value = []\<rparr>]"
     "\<lparr>CompareGeneric = bytes_Compare,
      InfoFromCell = (\<lambda>cell. Inr (Ref 1 \<lparr>Table = ''t'', RegionName = ''t,,1'', StopKey = []\<rparr>)),
      newRegion = (\<lambda>host port. Inr 5)\<rparr>"
     "\<lparr>c_regions = [], c_clients = Map.empty, c_metaClient = Some 9, c_zkquorum = ''zk''\<rparr>"]
  by (simp add: discoverRegion_def addRegionToCache_def publish_region_def publish_client_def
      regionClientCache_put_def put_def)

text \<open>
  Claim C5, amended. For a present row with a \<open>server\<close> cell whose non-empty value is
  malformed (no colon, the colon first, or a port part that is not a decimal number
  below \<open>1<<16\<close>), \<open>discoverRegion\<close> returns an error, without a panic and with the
  caches unchanged; every error result leaves the caches unchanged; and a row with no
  \<open>server\<close> cell is not an error by itself: an error then comes from the decoder or
  from the constructor called with host \<open>""\<close> and port 0.
\<close>

theorem discoverRegion_malformed_server:
  "(Result metaRow = Some cells \<and> cell \<in> set cells \<and> Qualifier cell = ''server'' \<and>
    Value cell \<noteq> [] \<and> server_malformed (Value cell) \<longrightarrow>
      (\<exists>err. discoverRegion env c metaRow = (Inr (Inl err), c))) \<and>
   (fst (discoverRegion env c metaRow) = Inr (Inl err) \<longrightarrow>
      snd (discoverRegion env c metaRow) = c) \<and>
   (Result metaRow = Some cells \<and> (\<forall>x \<in> set cells. Qualifier x \<noteq> ''server'') \<and>
    fst (discoverRegion env c metaRow) = Inr (Inl err) \<longrightarrow>
      newRegion env [] 0 = Inl err \<or>
      (\<exists>x \<in> set cells. Qualifier x = ''regioninfo'' \<and> InfoFromCell env x = Inl err))"
proof (intro conjI impI)
  assume a: "Result metaRow = Some cells \<and> cell \<in> set cells \<and> Qualifier cell = ''server'' \<and>
    Value cell \<noteq> [] \<and> server_malformed (Value cell)"
  then obtain e where "discoverRegion_cells env cells ([], 0, Null) = Inl e"
    using cells_malformed_server[of cell cells env "[]" 0 Null] by auto
  with a show "\<exists>err. discoverRegion env c metaRow = (Inr (Inl err), c)"
    by (simp add: discoverRegion_def)
next
  assume "fst (discoverRegion env c metaRow) = Inr (Inl err)"
  then show "snd (discoverRegion env c metaRow) = c"
    by (rule discoverRegion_error_keeps_caches)
next
  assume a: "Result metaRow = Some cells \<and> (\<forall>x \<in> set cells. Qualifier x \<noteq> ''server'') \<and>
    fst (discoverRegion env c metaRow) = Inr (Inl err)"
  then have es: "\<forall>x \<in> set cells. Qualifier x = ''server'' \<longrightarrow> Value x = []" by simp
  from a have r: "Result metaRow = Some cells"
    and e: "fst (discoverRegion env c metaRow) = Inr (Inl err)" by simp_all
  show "newRegion env [] 0 = Inl err \<or>
      (\<exists>x \<in> set cells. Qualifier x = ''regioninfo'' \<and> InfoFromCell env x = Inl err)"
    by (rule empty_server_error_cause[OF r es e])
qed

theorem discoverRegion_malformed_server_counterexample:
  "fst (discoverRegion
     \<lparr>CompareGeneric = bytes_Compare,
      InfoFromCell = (\<lambda>cell. Inr (Ref 1 \<lparr>Table = ''t'', RegionName = ''t,,1'', StopKey = []\<rparr>)),
      newRegion = (\<lambda>host port. if host = [] \<and> port = 0 then Inr 5 else Inl (Foreign 1))\<rparr>
     \<lparr>c_regions = [], c_clients = Map.empty, c_metaClient = Some 9, c_zkquorum = ''zk''\<rparr>
     \<lparr>Result = Some [\<lparr>Qualifier = ''regioninfo'', Value = ''t,,1''\<rparr>]\<rparr>)
     = Inr (Inr (5, Ref 1 \<lparr>Table = ''t'', RegionName = ''t,,1'', StopKey = []\<rparr>)) \<and>
   c_regions (snd (discoverRegion
     \<lparr>CompareGeneric = bytes_Compare,
      InfoFromCell = (\<lambda>cell. Inr (Ref 1 \<lparr>Table = ''t'', RegionName = ''t,,1'', StopKey = []\<rparr>)),
      newRegion = (\<lambda>host port. if host = [] \<and> port = 0 then Inr 5 else Inl (Foreign 1))\<rparr>
     \<lparr>c_regions = [], c_clients = Map.empty, c_metaClient = Some 9, c_zkquorum = ''zk''\<rparr>
     \<lparr>Result = Some [\<lparr>Qualifier = ''regioninfo'', Value = ''t,,1''\<rparr>]\<rparr>))
     = [(''t,,1'', Ref 1 \<lparr>Table = ''t'', RegionName = ''t,,1'', StopKey = []\<rparr>)]"
  by (simp add: discoverRegion_def addRegionToCache_def publish_region_def publish_client_def
      regionClientCache_put_def put_def)

lemma discoverRegion_missing_regioninfo_panics:
  "fst (discoverRegion
     \<lparr>CompareGeneric = bytes_Compare,
      InfoFromCell = (\<lambda>cell. Inl (Foreign 2)),
      newRegion = (\<lambda>host port. if host = ''rs1'' \<and> port = 60020 then Inr 5 else Inl (Foreign 1))\<rparr>
     \<lparr>c_regions = [], c_clients = Map.empty, c_metaClient = Some 9, c_zkquorum = ''zk''\<rparr>
     \<lparr>Result = Some [\<lparr>Qualifier = ''server'', Value = ''rs1:60020''\<rparr>]\<rparr>)
     = Inl NilDereference \<and>
   c_clients (snd (discoverRegion
     \<lparr>CompareGeneric = bytes_Compare,
      InfoFromCell = (\<lambda>cell. Inl (Foreign 2)),
      newRegion = (\<lambda>host port. if host = ''rs1'' \<and> port = 60020 then Inr 5 else Inl (Foreign 1))\<rparr>
     \<lparr>c_regions = [], c_clients = Map.empty, c_metaClient = Some 9, c_zkquorum = ''zk''\<rparr>
     \<lparr>Result = Some [\<lparr>Qualifier = ''server'', Value = ''rs1:60020''\<rparr>]\<rparr>)) Null = Some 5"
  by (simp add: discoverRegion_def addRegionToCache_def publish_region_def publish_client_def
      regionClientCache_put_def ParseUint_10_16_def is_digit_def digit_val_def)

theorem discoverRegion_malformed_server_witness:
  "discoverRegion
     \<lparr>CompareGeneric = bytes_Compare,
      InfoFromCell = (\<lambda>cell. Inr (Ref 1 \<lparr>Table = ''t'', RegionName = ''t,,1'', StopKey = []\<rparr>)),
      newRegion = (\<lambda>host port. Inr 5)\<rparr>
     \<lparr>c_regions = [], c_clients = Map.empty, c_metaClient = Some 9, c_zkquorum = ''zk''\<rparr>
     \<lparr>Result = Some [\<lparr>Qualifier = ''regioninfo'', Value = ''t,,1''\<rparr>,
                     \<lparr>Qualifier = ''server'', Value = ''rs1:65536''\<rparr>]\<rparr>
     = (Inr (Inl (NumError ErrRange)),
        \<lparr>c_regions = [], c_clients = Map.empty, c_metaClient = Some 9, c_zkquorum = ''zk''\<rparr>) \<and>
   discoverRegion
     \<lparr>CompareGeneric = bytes_Compare,
      InfoFromCell = (\<lambda>cell. Inr (Ref 1 \<lparr>Table = ''t'', RegionName = ''t,,1'', StopKey = []\<rparr>)),
      newRegion = (\<lambda>host port. Inr 5)\<rparr>
     \<lparr>c_regions = [], c_clients = Map.empty, c_metaClient = Some 9, c_zkquorum = ''zk''\<rparr>
     \<lparr>Result = Some [\<lparr>Qualifier = ''regioninfo'', Value = ''t,,1''\<rparr>,
                     \<lparr>Qualifier = ''server'', Value = ''rs1''\<rparr>]\<rparr>
     = (Inr (Inl (BrokenMeta \<lparr>Qualifier = ''server'', Value = ''rs1''\<rparr>)),
        \<lparr>c_regions = [], c_clients = Map.empty, c_metaClient = Some 9, c_zkquorum = ''zk''\<rparr>) \<and>
   discoverRegion
     \<lparr>CompareGeneric = bytes_Compare,
      InfoFromCell = (\<lambda>cell. Inr (Ref 1 \<lparr>Table = ''t'', RegionName = ''t,,1'', StopKey = []\<rparr>)),
      newRegion = (\<lambda>host port. Inl (Foreign 7))\<rparr>
     \<lparr>c_regions = [], c_clients = Map.empty, c_metaClient = Some 9, c_zkquorum = ''zk''\<rparr>
     \<lparr>Result = Some [\<lparr>Qualifier = ''regioninfo'', Value = ''t,,1''\<rparr>]\<rparr>
     = (Inr (Inl (Foreign 7)),
        \<lparr>c_regions = [], c_clients = Map.empty, c_metaClient = Some 9, c_zkquorum = ''zk''\<rparr>) \<and>
   server_malformed ''rs1:65536'' \<and> server_malformed ''rs1'' \<and> server_malformed '':60020'' \<and>
   server_malformed ''rs1:6o'' \<and> server_malformed ''rs1:'' \<and> \<not> server_malformed ''rs1:60020''"
  using discoverRegion_malformed_server [of
     "\<lparr>Result = Some [\<lparr>Qualifier = ''regioninfo'', Value = ''t,,1''\<rparr>,
                     \<lparr>Qualifier = ''server'', Value = ''rs1:65536''\<rparr>]\<rparr>"
     "[\<lparr>Qualifier = ''regioninfo'', Value = ''t,,1''\<rparr>,
       \<lparr>Qualifier = ''server'', Value = ''rs1:65536''\<rparr>]"
     "\<lparr>Qualifier = ''server'', Value = ''rs1:65536''\<rparr>"
     "\<lparr>CompareGeneric = bytes_Compare,
      InfoFromCell = (\<lambda>cell. Inr (Ref 1 \<lparr>Table = ''t'', RegionName = ''t,,1'', StopKey = []\<rparr>)),
      newRegion = (\<lambda>host port. Inr 5)\<rparr>"
     "\<lparr>c_regions = [], c_clients = Map.empty, c_metaClient = Some 9, c_zkquorum = ''zk''\<rparr>"
     "NumError ErrRange"]
    discoverRegion_malformed_server [of
     "\<lparr>Result = Some [\<lparr>Qualifier = ''regioninfo'', Value = ''t,,1''\<rparr>]\<rparr>"
     "[\<lparr>Qualifier = ''regioninfo'', Value = ''t,,1''\<rparr>]"
     "\<lparr>Qualifier = ''server'', Value = ''rs1:65536''\<rparr>"
     "\<lparr>CompareGeneric = bytes_Compare,
      InfoFromCell = (\<lambda>cell. Inr (Ref 1 \<lparr>Table = ''t'', RegionName = ''t,,1'', StopKey = []\<rparr>)),
      newRegion = (\<lambda>host port. Inl (Foreign 7))\<rparr>"
     "\<lparr>c_regions = [], c_clients = Map.empty, c_metaClient = Some 9, c_zkquorum = ''zk''\<rparr>"
     "Foreign 7"]
  by (simp add: discoverRegion_def server_malformed_def is_port_def decimal_value_def
      ParseUint_10_16_def is_digit_def digit_val_def)

section \<open>Sending a call\<close>

lemma select_wait_idle_prefix:
  "list_all idle pre \<Longrightarrow> select_wait (pre @ rest) = select_wait rest"
  by (induction pre) (auto simp: idle_def)

lemma select_wait_result_first:
  assumes "list_all idle pre" "r_result r = Some res" "\<not> r_done r"
  shows "select_wait (pre @ r # rest) = Some (Msg res, Error res)"
  using assms by (simp add: select_wait_idle_prefix)

lemma select_wait_done_first:
  assumes "list_all idle pre" "r_result r = None" "r_done r"
  shows "select_wait (pre @ r # rest) = Some (NilMessage, Some ErrDeadline)"
  using assms by (simp add: select_wait_idle_prefix)

lemma select_wait_outcomes:
  "select_wait obs = Some out \<Longrightarrow>
   out = (NilMessage, Some ErrDeadline) \<or>
   (\<exists>r \<in> set obs. \<exists>res. r_result r = Some res \<and> out = (Msg res, Error res))"
  by (induction obs) (auto split: option.splits if_splits)

text \<open>
  Claim C9. When \<open>queueRPC\<close> fails, \<open>sendRPC\<close> returns that error at once, in the
  state that \<open>queueRPC\<close> left and without a look at the channels. Otherwise it
  returns what the select on the result channel and on the context gives: the
  delivered message and error when the result is the first to be ready, \<open>ErrDeadline\<close>
  when the context is done first; so a call whose deadline has passed when the select
  starts, on a connection that never answers, returns \<open>ErrDeadline\<close> and does not
  hang.
\<close>

theorem sendRPC_select:
  "(queueRPC env net s rpc = (Inr (Some err), rpc', s') \<longrightarrow>
      sendRPC env net s rpc = (Some (Inr (NilMessage, Some err)), rpc', s')) \<and>
   (queueRPC env net s rpc = (Inr None, rpc', c', w') \<and> observe net w' rpc' = (obs, w'') \<longrightarrow>
      sendRPC env net s rpc = (map_option Inr (select_wait obs), rpc', c', w'')) \<and>
   (list_all idle pre \<and> r_result r = Some res \<and> \<not> r_done r \<longrightarrow>
      select_wait (pre @ r # rest) = Some (Msg res, Error res)) \<and>
   (list_all idle pre \<and> r_result r = None \<and> r_done r \<longrightarrow>
      select_wait (pre @ r # rest) = Some (NilMessage, Some ErrDeadline)) \<and>
   (r_done r \<and> r_result r = None \<longrightarrow>
      select_wait (r # rest) = Some (NilMessage, Some ErrDeadline))"
proof (intro conjI impI)
  assume "queueRPC env net s rpc = (Inr (Some err), rpc', s')"
  then show "sendRPC env net s rpc = (Some (Inr (NilMessage, Some err)), rpc', s')"
    by (simp add: sendRPC_def)
next
  assume "queueRPC env net s rpc = (Inr None, rpc', c', w') \<and> observe net w' rpc' = (obs, w'')"
  then show "sendRPC env net s rpc = (map_option Inr (select_wait obs), rpc', c', w'')"
    by (cases "select_wait obs") (simp_all add: sendRPC_def)
next
  assume "list_all idle pre \<and> r_result r = Some res \<and> \<not> r_done r"
  then show "select_wait (pre @ r # rest) = Some (Msg res, Error res)"
    by (simp add: select_wait_result_first)
next
  assume "list_all idle pre \<and> r_result r = None \<and> r_done r"
  then show "select_wait (pre @ r # rest) = Some (NilMessage, Some ErrDeadline)"
    by (simp add: select_wait_done_first)
next
  assume "r_done r \<and> r_result r = None"
  then show "select_wait (r # rest) = Some (NilMessage, Some ErrDeadline)"
    by simp
qed

theorem sendRPC_select_witness:
  "fst (sendRPC
     \<lparr>CompareGeneric = bytes_Compare, InfoFromCell = (\<lambda>cell. Inl (Foreign 2)),
      newRegion = (\<lambda>host port. Inl (Foreign 1))\<rparr>
     \<lparr>LocateMeta = (\<lambda>quorum. Inl (Foreign 4)), NewClient = (\<lambda>host port. Inl (Foreign 5)),
      SendRPC = (\<lambda>w cl rpc. (Inl (Foreign 6), w)), QueueRPC = (\<lambda>w cl rpc. Suc w),
      observe = (\<lambda>w rpc. ([\<lparr>r_result = None, r_done = True, r_pick_result = False\<rparr>], w))\<rparr>
     (\<lparr>c_regions = [], c_clients = Map.empty, c_metaClient = Some 9, c_zkquorum = ''zk''\<rparr>, 0::nat)
     \<lparr>rpc_kind = GetStr, rpc_ctx = Ctx 1, rpc_table = ''hbase:meta'', rpc_key = ''k'',
      rpc_families = [], rpc_region = [], rpc_regionStop = []\<rparr>)
     = Some (Inr (NilMessage, Some ErrDeadline)) \<and>
   sendRPC
     \<lparr>CompareGeneric = bytes_Compare, InfoFromCell = (\<lambda>cell. Inl (Foreign 2)),
      newRegion = (\<lambda>host port. Inl (Foreign 1))\<rparr>
     \<lparr>LocateMeta = (\<lambda>quorum. Inl (Foreign 4)), NewClient = (\<lambda>host port. Inl (Foreign 5)),
      SendRPC = (\<lambda>w cl rpc. (Inl (Foreign 6), w)), QueueRPC = (\<lambda>w cl rpc. Suc w),
      observe = (\<lambda>w rpc. ([\<lparr>r_result = None, r_done = True, r_pick_result = False\<rparr>], w))\<rparr>
     (\<lparr>c_regions = [], c_clients = Map.empty, c_metaClient = None, c_zkquorum = ''zk''\<rparr>, 0::nat)
     \<lparr>rpc_kind = GetStr, rpc_ctx = Ctx 1, rpc_table = ''t'', rpc_key = ''k'',
      rpc_families = [], rpc_region = [], rpc_regionStop = []\<rparr>
     = (Some (Inr (NilMessage, Some (Foreign 4))),
        \<lparr>rpc_kind = GetStr, rpc_ctx = Ctx 1, rpc_table = ''t'', rpc_key = ''k'',
         rpc_families = [], rpc_region = [], rpc_regionStop = []\<rparr>,
        \<lparr>c_regions = [], c_clients = Map.empty, c_metaClient = None, c_zkquorum = ''zk''\<rparr>, 0) \<and>
   select_wait
     [\<lparr>r_result = None, r_done = False, r_pick_result = False\<rparr>,
      \<lparr>r_result = Some \<lparr>Msg = MutateMsg, Error = None\<rparr>, r_done = False, r_pick_result = False\<rparr>,
      \<lparr>r_result = None, r_done = True, r_pick_result = False\<rparr>]
     = Some (MutateMsg, None) \<and>
   select_wait
     [\<lparr>r_result = None, r_done = False, r_pick_result = False\<rparr>,
      \<lparr>r_result = None, r_done = True, r_pick_result = False\<rparr>,
      \<lparr>r_result = Some \<lparr>Msg = MutateMsg, Error = None\<rparr>, r_done = True, r_pick_result = True\<rparr>]
     = Some (NilMessage, Some ErrDeadline) \<and>
   select_wait
     [\<lparr>r_result = None, r_done = False, r_pick_result = False\<rparr>,
      \<lparr>r_result = None, r_done = False, r_pick_result = False\<rparr>]
     = None"
proof -
  let ?env = "\<lparr>CompareGeneric = bytes_Compare, InfoFromCell = (\<lambda>cell. Inl (Foreign 2)),
      newRegion = (\<lambda>host port. Inl (Foreign 1))\<rparr>"
  let ?net = "\<lparr>LocateMeta = (\<lambda>quorum. Inl (Foreign 4)), NewClient = (\<lambda>host port. Inl (Foreign 5)),
      SendRPC = (\<lambda>w cl rpc. (Inl (Foreign 6), w)), QueueRPC = (\<lambda>w cl rpc. Suc w),
      observe = (\<lambda>w rpc. ([\<lparr>r_result = None, r_done = True, r_pick_result = False\<rparr>], w))\<rparr>"
  let ?c = "\<lparr>c_regions = [], c_clients = Map.empty, c_metaClient = None, c_zkquorum = ''zk''\<rparr>"
  let ?cm = "\<lparr>c_regions = [], c_clients = Map.empty, c_metaClient = Some 9, c_zkquorum = ''zk''\<rparr>"
  let ?rpc = "\<lparr>rpc_kind = GetStr, rpc_ctx = Ctx 1, rpc_table = ''t'', rpc_key = ''k'',
      rpc_families = [], rpc_region = [], rpc_regionStop = []\<rparr>"
  let ?mrpc = "\<lparr>rpc_kind = GetStr, rpc_ctx = Ctx 1, rpc_table = ''hbase:meta'', rpc_key = ''k'',
      rpc_families = [], rpc_region = [], rpc_regionStop = []\<rparr>"
  let ?mrpc' = "\<lparr>rpc_kind = GetStr, rpc_ctx = Ctx 1, rpc_table = ''hbase:meta'', rpc_key = ''k'',
      rpc_families = [], rpc_region = ''hbase:meta,,1'', rpc_regionStop = []\<rparr>"
  have q1: "queueRPC ?env ?net (?c, 0::nat) ?rpc = (Inr (Some (Foreign 4)), ?rpc, ?c, 0)"
    by (simp add: queueRPC_def getRegion_def metaTableName_def get_def Seek_def Prev_def step_back_def
        Last_def Len_def locateRegion_def locateMeta_def Key_def)
  have q2: "queueRPC ?env ?net (?cm, 0::nat) ?mrpc = (Inr None, ?mrpc', ?cm, Suc 0)"
    by (simp add: queueRPC_def getRegion_def metaTableName_def metaRegionInfo_def metaInfo_def clientFor_def
        SetRegion_def Key_def)
  have o: "observe ?net (Suc 0) ?mrpc'
           = ([\<lparr>r_result = None, r_done = True, r_pick_result = False\<rparr>], Suc 0)"
    by simp
  from sendRPC_select [of ?env ?net "(?c, 0::nat)" ?rpc "Foreign 4" ?rpc "(?c, 0::nat)"] q1
  have a: "sendRPC ?env ?net (?c, 0::nat) ?rpc = (Some (Inr (NilMessage, Some (Foreign 4))), ?rpc, ?c, 0)"
    by simp
  from sendRPC_select [of ?env ?net "(?cm, 0::nat)" ?mrpc _ ?mrpc' _ ?cm "Suc 0"
      "[\<lparr>r_result = None, r_done = True, r_pick_result = False\<rparr>]" "Suc 0"] q2 o
  have b: "fst (sendRPC ?env ?net (?cm, 0::nat) ?mrpc) = Some (Inr (NilMessage, Some ErrDeadline))"
    by simp
  have i: "list_all idle [\<lparr>r_result = None, r_done = False, r_pick_result = False\<rparr>]"
    by (simp add: idle_def)
  from sendRPC_select [of _ _ _ _ _ _ _ _ _ _ _
      "[\<lparr>r_result = None, r_done = False, r_pick_result = False\<rparr>]"
      "\<lparr>r_result = Some \<lparr>Msg = MutateMsg, Error = None\<rparr>, r_done = False, r_pick_result = False\<rparr>"
      "\<lparr>Msg = MutateMsg, Error = None\<rparr>"
      "[\<lparr>r_result = None, r_done = True, r_pick_result = False\<rparr>]"] i
  have c: "select_wait
     [\<lparr>r_result = None, r_done = False, r_pick_result = False\<rparr>,
      \<lparr>r_result = Some \<lparr>Msg = MutateMsg, Error = None\<rparr>, r_done = False, r_pick_result = False\<rparr>,
      \<lparr>r_result = None, r_done = True, r_pick_result = False\<rparr>]
     = Some (MutateMsg, None)"
    by simp
  from sendRPC_select [of _ _ _ _ _ _ _ _ _ _ _
      "[\<lparr>r_result = None, r_done = False, r_pick_result = False\<rparr>]"
      "\<lparr>r_result = None, r_done = True, r_pick_result = False\<rparr>"
      _
      "[\<lparr>r_result = Some \<lparr>Msg = MutateMsg, Error = None\<rparr>, r_done = True, r_pick_result = True\<rparr>]"] i
  have d: "select_wait
     [\<lparr>r_result = None, r_done = False, r_pick_result = False\<rparr>,
      \<lparr>r_result = None, r_done = True, r_pick_result = False\<rparr>,
      \<lparr>r_result = Some \<lparr>Msg = MutateMsg, Error = None\<rparr>, r_done = True, r_pick_result = True\<rparr>]
     = Some (NilMessage, Some ErrDeadline)"
    by simp
  from a b c d show ?thesis by simp
qed

section \<open>The scan\<close>


lemma send_scan_err: "send_scan send s rpc = Inr (scanres, err, rpc', s') \<Longrightarrow> err = None"
  by (auto simp: send_scan_def split: option.splits sum.splits prod.splits if_splits message.splits)

lemma send_scan_error_aborts:
  "send s rpc = (Some (Inr (res, Some e)), rpc', s') \<Longrightarrow>
   send_scan send s rpc = Inl (Some (Inr ([], Some e)))"
  by (simp add: send_scan_def)






lemma scripted_close_error_swallowed:
  "Scan (\<lambda>s rpc. case s of [] \<Rightarrow> (None, rpc, [])
          | (msg, err, stop) # rest \<Rightarrow> (Some (Inr (msg, err)), SetRegion rpc ''r'' stop, rest))
     3
     [(ScanMsg \<lparr>Results = [[\<lparr>Qualifier = ''q'', Value = ''a''\<rparr>]], ScannerId = Some 1\<rparr>, None, []),
      (ScanMsg \<lparr>Results = [], ScannerId = Some 1\<rparr>, None, []),
      (NilMessage, Some (Foreign 3), [])]
     (Ctx 1) ''t'' [] [] []
     = Some (Inr ([[\<lparr>Qualifier = ''q'', Value = ''a''\<rparr>]], None)) \<and>
   Scan (\<lambda>s rpc. case s of [] \<Rightarrow> (None, rpc, [])
          | (msg, err, stop) # rest \<Rightarrow> (Some (Inr (msg, err)), SetRegion rpc ''r'' stop, rest))
     3
     [(ScanMsg \<lparr>Results = [[\<lparr>Qualifier = ''q'', Value = ''a''\<rparr>]], ScannerId = Some 1\<rparr>, None, []),
      (NilMessage, Some (Foreign 3), [])]
     (Ctx 1) ''t'' [] [] []
     = Some (Inr ([], Some (Foreign 3)))"
  by (simp add: Scan_def eval_nat_numeral send_scan_def send_close_def NewScanStr_def
      NewScanFromID_def NewCloseFromID_def SetRegion_def GetRegionStop_def Key_def)

lemma scan_open_error_aborts:
  assumes "send s (case rpc of None \<Rightarrow> NewScanStr ctx table fam startRow stopRow
                     | Some prev \<Rightarrow> NewScanStr ctx table fam (GetRegionStop prev) stopRow)
           = (Some (Inr (res, Some e)), rpc', s')"
  shows "scan_loop (Suc n) send s ctx table fam startRow stopRow (OuterLoop rpc) results
         = Some (Inr ([], Some e))"
  using assms by (simp add: send_scan_def)

lemma scan_next_error_aborts:
  assumes "Results scanres \<noteq> []" "ScannerId scanres = Some scannerId"
    and "send s (NewScanFromID ctx table scannerId (Key rpc)) = (Some (Inr (res, Some e)), rpc', s')"
  shows "scan_loop (Suc n) send s ctx table fam startRow stopRow (InnerLoop rpc scanres err) results
         = Some (Inr ([], Some e))"
  using assms by (simp add: send_scan_def)

lemma scan_close_error_ignored:
  assumes "Results scanres = []" "ScannerId scanres = Some scannerId"
    and "send s (NewCloseFromID ctx table scannerId (Key rpc)) = (Some (Inr (res, Some e)), rpc', s')"
    and "GetRegionStop rpc' = []"
  shows "scan_loop (Suc n) send s ctx table fam startRow stopRow (InnerLoop rpc scanres None) results
         = Some (Inr (results, None))"
  using assms by (simp add: send_close_def)

text \<open>
  Claim C6, at a failing input. A scan of a table with one region, found through the
  meta table for every call: the scan-open call brings one row, the next fetch an
  empty batch, and the close call fails with an error. \<open>Scan\<close> returns the row and a
  nil error: the error of the close call is assigned and never read.
\<close>

theorem Client_Scan_close_error_swallowed:
  "Client_Scan
     \<lparr>CompareGeneric = bytes_Compare,
      InfoFromCell = (\<lambda>cell. Inr (Ref 7 \<lparr>Table = ''t'', RegionName = ''t,,1'', StopKey = []\<rparr>)),
      newRegion = (\<lambda>host port. if host = ''rs1'' \<and> port = 60020 then Inr 5 else Inl (Foreign 2))\<rparr>
     \<lparr>LocateMeta = (\<lambda>quorum. Inl (Foreign 4)), NewClient = (\<lambda>host port. Inl (Foreign 5)),
      SendRPC = (\<lambda>w cl rpc.
        (Inr (GetMsg \<lparr>Result = Some [\<lparr>Qualifier = ''regioninfo'', Value = ''t,,1''\<rparr>,
                                        \<lparr>Qualifier = ''server'', Value = ''rs1:60020''\<rparr>]\<rparr>), w)),
      QueueRPC = (\<lambda>w cl rpc. w),
      observe = (\<lambda>w rpc.
        (case rpc_kind rpc of
           ScanStr startRow stopRow \<Rightarrow>
             [\<lparr>r_result = Some \<lparr>Msg = ScanMsg \<lparr>Results = [[\<lparr>Qualifier = ''q'', Value = ''a''\<rparr>]],
                                                  ScannerId = Some 8\<rparr>, Error = None\<rparr>,
               r_done = False, r_pick_result = True\<rparr>]
         | ScanFromID scannerId \<Rightarrow>
             [\<lparr>r_result = Some \<lparr>Msg = ScanMsg \<lparr>Results = [], ScannerId = Some 8\<rparr>, Error = None\<rparr>,
               r_done = False, r_pick_result = True\<rparr>]
         | other \<Rightarrow>
             [\<lparr>r_result = Some \<lparr>Msg = NilMessage, Error = Some (Foreign 3)\<rparr>,
               r_done = False, r_pick_result = True\<rparr>], w))\<rparr>
     3
     (\<lparr>c_regions = [], c_clients = Map.empty, c_metaClient = Some 9, c_zkquorum = ''zk''\<rparr>, 0::nat)
     (Ctx 2) ''t'' [] [] []
   = Some (Inr ([[\<lparr>Qualifier = ''q'', Value = ''a''\<rparr>]], None))"
proof -
  let ?R = "Ref 7 \<lparr>Table = ''t'', RegionName = ''t,,1'', StopKey = []\<rparr>"
  let ?row = "\<lparr>Result = Some [\<lparr>Qualifier = ''regioninfo'', Value = ''t,,1''\<rparr>,
                                 \<lparr>Qualifier = ''server'', Value = ''rs1:60020''\<rparr>]\<rparr>"
  let ?open = "[\<lparr>r_result = Some \<lparr>Msg = ScanMsg \<lparr>Results = [[\<lparr>Qualifier = ''q'', Value = ''a''\<rparr>]],
                                                  ScannerId = Some 8\<rparr>, Error = None\<rparr>,
               r_done = False, r_pick_result = True\<rparr>]"
  let ?next = "[\<lparr>r_result = Some \<lparr>Msg = ScanMsg \<lparr>Results = [], ScannerId = Some 8\<rparr>, Error = None\<rparr>,
               r_done = False, r_pick_result = True\<rparr>]"
  let ?close = "[\<lparr>r_result = Some \<lparr>Msg = NilMessage, Error = Some (Foreign 3)\<rparr>,
               r_done = False, r_pick_result = True\<rparr>]"
  let ?env = "\<lparr>CompareGeneric = bytes_Compare, InfoFromCell = (\<lambda>cell. Inr ?R),
      newRegion = (\<lambda>host port. if host = ''rs1'' \<and> port = 60020 then Inr 5 else Inl (Foreign 2))\<rparr>"
  let ?net = "\<lparr>LocateMeta = (\<lambda>quorum. Inl (Foreign 4)), NewClient = (\<lambda>host port. Inl (Foreign 5)),
      SendRPC = (\<lambda>w cl rpc. (Inr (GetMsg ?row), w)),
      QueueRPC = (\<lambda>w cl rpc. w),
      observe = (\<lambda>w rpc.
        (case rpc_kind rpc of
           ScanStr startRow stopRow \<Rightarrow> ?open
         | ScanFromID scannerId \<Rightarrow> ?next
         | other \<Rightarrow> ?close, w))\<rparr>"
  let ?c0 = "\<lparr>c_regions = [], c_clients = Map.empty, c_metaClient = Some 9, c_zkquorum = ''zk''\<rparr>"
  let ?c1 = "\<lparr>c_regions = [(''t,,1'', ?R)], c_clients = [?R \<mapsto> 5], c_metaClient = Some 9,
             c_zkquorum = ''zk''\<rparr>"
  have port: "ParseUint_10_16 ''60020'' = Inr 60020"
    by (simp add: ParseUint_10_16_def is_digit_def digit_val_def)
  have cells: "discoverRegion_cells ?env
      [\<lparr>Qualifier = ''regioninfo'', Value = ''t,,1''\<rparr>,
       \<lparr>Qualifier = ''server'', Value = ''rs1:60020''\<rparr>] ([], 0, Null) = Inr (''rs1'', 60020, ?R)"
    by (simp add: port)
  have d0: "discoverRegion ?env ?c0 ?row = (Inr (Inr (5, ?R)), ?c1)"
    by (simp add: discoverRegion_def cells port addRegionToCache_def publish_client_def
        publish_region_def regionClientCache_put_def put_def)
  have d1: "discoverRegion ?env ?c1 ?row = (Inr (Inr (5, ?R)), ?c1)"
    by (simp add: discoverRegion_def cells port addRegionToCache_def publish_client_def
        publish_region_def regionClientCache_put_def put_def)
  have g0: "getRegion bytes_Compare [] ''t'' [] = Inr Null"
    by (simp add: getRegion_def metaTableName_def createRegionSearchKey_def get_def Seek_def
        Prev_def step_back_def Last_def Len_def)
  have g1: "getRegion bytes_Compare [(''t,,1'', ?R)] ''t'' [] = Inr Null"
    by (simp add: getRegion_def metaTableName_def createRegionSearchKey_def get_def Seek_def
        Prev_def step_back_def Last_def Len_def)
  have l0: "locateRegion ?env ?net (?c0, 0::nat) ''t'' [] = (Inr (Inr (5, ?R)), ?c1, 0)"
    by (simp add: locateRegion_def d0)
  have l1: "locateRegion ?env ?net (?c1, 0::nat) ''t'' [] = (Inr (Inr (5, ?R)), ?c1, 0)"
    by (simp add: locateRegion_def d1)
  have q0: "\<And>rpc. rpc_table rpc = ''t'' \<Longrightarrow> rpc_key rpc = [] \<Longrightarrow>
      queueRPC ?env ?net (?c0, 0::nat) rpc = (Inr None, SetRegion rpc ''t,,1'' [], ?c1, 0)"
    by (simp add: queueRPC_def Key_def g0 l0)
  have q1: "\<And>rpc. rpc_table rpc = ''t'' \<Longrightarrow> rpc_key rpc = [] \<Longrightarrow>
      queueRPC ?env ?net (?c1, 0::nat) rpc = (Inr None, SetRegion rpc ''t,,1'' [], ?c1, 0)"
    by (simp add: queueRPC_def Key_def g1 l1)
  have s0: "sendRPC ?env ?net (?c0, 0::nat) (NewScanStr (Ctx 2) ''t'' [] [] [])
      = (Some (Inr (ScanMsg \<lparr>Results = [[\<lparr>Qualifier = ''q'', Value = ''a''\<rparr>]], ScannerId = Some 8\<rparr>, None)),
         SetRegion (NewScanStr (Ctx 2) ''t'' [] [] []) ''t,,1'' [], ?c1, 0)"
    by (simp add: sendRPC_def q0 NewScanStr_def SetRegion_def)
  have s1: "sendRPC ?env ?net (?c1, 0::nat) (NewScanFromID (Ctx 2) ''t'' 8 [])
      = (Some (Inr (ScanMsg \<lparr>Results = [], ScannerId = Some 8\<rparr>, None)),
         SetRegion (NewScanFromID (Ctx 2) ''t'' 8 []) ''t,,1'' [], ?c1, 0)"
    by (simp add: sendRPC_def q1 NewScanFromID_def SetRegion_def)
  have s2: "sendRPC ?env ?net (?c1, 0::nat) (NewCloseFromID (Ctx 2) ''t'' 8 [])
      = (Some (Inr (NilMessage, Some (Foreign 3))),
         SetRegion (NewCloseFromID (Ctx 2) ''t'' 8 []) ''t,,1'' [], ?c1, 0)"
    by (simp add: sendRPC_def q1 NewCloseFromID_def SetRegion_def)
  have k0: "Key (SetRegion (NewScanStr (Ctx 2) ''t'' [] [] []) ''t,,1'' []) = []"
    by (simp add: Key_def SetRegion_def NewScanStr_def)
  have k1: "Key (SetRegion (NewScanFromID (Ctx 2) ''t'' 8 []) ''t,,1'' []) = []"
    by (simp add: Key_def SetRegion_def NewScanFromID_def)
  have k2: "GetRegionStop (SetRegion (NewCloseFromID (Ctx 2) ''t'' 8 []) ''t,,1'' []) = []"
    by (simp add: GetRegionStop_def SetRegion_def)
  show ?thesis
    by (simp add: Client_Scan_def Scan_def numeral_3_eq_3 send_scan_def send_close_def
        s0 s1 s2 k0 k1 k2)
qed

end
